theory Spec2Isabelle
  imports Main "HOL-Library.Sublist" "HOL-Library.AList"
begin

section \<open>Python values used by \<open>utils/push_to_hub.py\<close>\<close>

text \<open>
  A Python \<open>dict\<close> with string keys is an association list in insertion order;
  \<open>map_of\<close> reads it. \<open>d.update(other)\<close> assigns the pairs of \<open>other\<close> in order:
  an existing key keeps its position and takes the new value, a new key is appended.
\<close>

type_synonym 'v dict = "(string \<times> 'v) list"

definition dict_update :: "'v dict \<Rightarrow> 'v dict \<Rightarrow> 'v dict" where
  "dict_update d other = fold (\<lambda>(k, v). AList.update k v) other d"

text \<open>\<open>s.replace(old, new)\<close> for one-character \<open>old\<close> and \<open>new\<close>.\<close>

definition str_replace :: "char \<Rightarrow> char \<Rightarrow> string \<Rightarrow> string" where
  "str_replace old new s = map (\<lambda>c. if c = old then new else c) s"

type_synonym path = string

datatype error =
    KeyError string
  | ValueError
  | FileNotFoundError path
  | IsADirectoryError path
  | LibraryError

section \<open>The command line entry point\<close>

text \<open>The parsed command line (\<open>args = parser.parse_args()\<close>), the flags the script reads.\<close>

record 'v args =
  args_env :: string
  args_folder :: string
  args_algo :: string
  args_n_envs :: int
  args_no_render :: bool
  args_deterministic :: bool
  args_stochastic :: bool
  args_seed :: int
  args_env_kwargs :: "'v dict option"
  args_organization :: string
  args_repo_name :: "string option"
  args_commit_message :: string

text \<open>Lines 320-324: off-policy algorithms only support one environment.\<close>

definition off_policy_algos :: "string list" where
  "off_policy_algos = [''qrdqn'', ''dqn'', ''ddpg'', ''sac'', ''her'', ''td3'', ''tqc'']"

definition force_single_env :: "'v args \<Rightarrow> 'v args" where
  "force_single_env a =
     (if args_algo a \<in> set off_policy_algos then a\<lparr>args_n_envs := 1\<rparr> else a)"

text \<open>
  Lines 338-348. \<open>loaded\<close> is the content of \<open>args.yml\<close>: \<open>None\<close> when
  \<open>os.path.isfile(args_path)\<close> is false, otherwise the top-level mapping that
  \<open>yaml.load\<close> returns. The value stored under a key is \<open>None\<close> (YAML null) or a mapping,
  which is what the training script stores under \<open>env_kwargs\<close>.
  \<open>loaded_args["env_kwargs"]\<close> raises \<open>KeyError\<close> when the key is missing.
\<close>

type_synonym 'v loaded_args = "(string \<times> 'v dict option) list"

definition load_env_kwargs :: "'v loaded_args option \<Rightarrow> error + 'v dict" where
  "load_env_kwargs loaded =
     (case loaded of
        None \<Rightarrow> Inr []
      | Some loaded_args \<Rightarrow>
          (case map_of loaded_args ''env_kwargs'' of
             None \<Rightarrow> Inl (KeyError ''env_kwargs'')
           | Some None \<Rightarrow> Inr []
           | Some (Some stored) \<Rightarrow> Inr stored))"

definition overwrite_env_kwargs :: "'v dict \<Rightarrow> 'v dict option \<Rightarrow> 'v dict" where
  "overwrite_env_kwargs env_kwargs cli =
     (case cli of None \<Rightarrow> env_kwargs | Some given \<Rightarrow> dict_update env_kwargs given)"

text \<open>
  Lines 361-364: the keyword arguments of \<open>ALGOS[algo].load\<close>.
\<close>

definition load_kwargs :: "'v args \<Rightarrow> int dict" where
  "load_kwargs a =
     (let kwargs = [(''seed'', args_seed a)]
      in if args_algo a \<in> set off_policy_algos
         then dict_update kwargs [(''buffer_size'', 1)] else kwargs)"

text \<open>
  Lines 371-373. Python reads \<open>a or b and not c\<close> as \<open>a or (b and (not c))\<close>.
\<close>

definition resolve_stochastic :: "bool \<Rightarrow> bool \<Rightarrow> bool \<Rightarrow> bool" where
  "resolve_stochastic stochastic is_atari deterministic =
     (stochastic \<or> (is_atari \<and> \<not> deterministic))"

text \<open>Lines 375-381: the default model name and the repository id.\<close>

definition default_model_name :: "string \<Rightarrow> string \<Rightarrow> string" where
  "default_model_name algo env_id = algo @ ''-'' @ env_id"

definition make_repo_id :: "string \<Rightarrow> string \<Rightarrow> string" where
  "make_repo_id organization repo_name =
     organization @ ''/'' @ str_replace (CHR ''/'') (CHR ''-'') repo_name"

text \<open>
  What the entry point hands to its two collaborators: the arguments of
  \<open>create_test_env\<close> (lines 350-359) and of \<open>package_to_hub\<close> (lines 384-402).
\<close>

record 'v launch =
  test_env_id :: string
  test_env_n_envs :: int
  test_env_seed :: int
  test_env_should_render :: bool
  test_env_kwargs :: "'v dict"
  model_load_kwargs :: "int dict"
  pkg_model_name :: string
  pkg_algo_name :: string
  pkg_env_kwargs :: "'v dict"
  pkg_env_id :: string
  pkg_repo_id :: string
  pkg_commit_message :: string
  pkg_is_deterministic :: bool
  pkg_n_eval_episodes :: int
  pkg_local_repo_path :: path
  pkg_video_length :: int
  pkg_generate_video :: bool

text \<open>
  The body of \<open>__main__\<close> from line 304 on. \<open>is_atari\<close> is
  \<open>ExperimentManager.is_atari\<close>, defined outside this file and taken as a parameter.
  Locating and loading the model and building the environment are library calls; the
  model records the arguments they are given.
\<close>

definition main_resolve ::
  "(string \<Rightarrow> bool) \<Rightarrow> 'v loaded_args option \<Rightarrow> 'v args \<Rightarrow> error + 'v launch" where
  "main_resolve is_atari loaded args0 =
     (let env_id = args_env args0;
          algo = args_algo args0;
          args1 = force_single_env args0;
          atari = is_atari env_id
      in case load_env_kwargs loaded of
           Inl e \<Rightarrow> Inl e
         | Inr stored \<Rightarrow>
             (let env_kwargs = overwrite_env_kwargs stored (args_env_kwargs args1);
                  stochastic =
                    resolve_stochastic (args_stochastic args1) atari (args_deterministic args1);
                  deterministic = (\<not> stochastic);
                  model_name = default_model_name algo env_id;
                  repo_name =
                    (case args_repo_name args1 of None \<Rightarrow> model_name | Some n \<Rightarrow> n);
                  repo_id = make_repo_id (args_organization args1) repo_name
              in Inr \<lparr>test_env_id = env_id,
                      test_env_n_envs = args_n_envs args1,
                      test_env_seed = args_seed args1,
                      test_env_should_render = (\<not> args_no_render args1),
                      test_env_kwargs = env_kwargs,
                      model_load_kwargs = load_kwargs args1,
                      pkg_model_name = model_name,
                      pkg_algo_name = algo,
                      pkg_env_kwargs = env_kwargs,
                      pkg_env_id = env_id,
                      pkg_repo_id = repo_id,
                      pkg_commit_message = args_commit_message args1,
                      pkg_is_deterministic = deterministic,
                      pkg_n_eval_episodes = 10,
                      pkg_local_repo_path = ''hub'',
                      pkg_video_length = 1000,
                      pkg_generate_video = (\<not> args_no_render args1)\<rparr>))"

text \<open>A command line used as a running example: PPO on CartPole for organisation acme.\<close>

definition example_args :: "int args" where
  "example_args =
     \<lparr>args_env = ''CartPole-v1'', args_folder = ''logs'', args_algo = ''ppo'',
      args_n_envs = 4, args_no_render = False, args_deterministic = False,
      args_stochastic = False, args_seed = 0, args_env_kwargs = None,
      args_organization = ''acme'', args_repo_name = None,
      args_commit_message = ''Initial commit''\<rparr>"

definition example_is_atari :: "string \<Rightarrow> bool" where
  "example_is_atari env_id = (env_id = ''PongNoFrameskip-v4'')"

definition example_loaded_args :: "int loaded_args" where
  "example_loaded_args =
     [(''seed'', None), (''env_kwargs'', Some [(''gravity'', 9), (''length'', 2)])]"

section \<open>The model card\<close>

text \<open>
  The metadata mapping of a model card: string keys to scalar or tag values. Rewards are
  Python floats that the script only passes on; their type is a parameter.
\<close>

datatype 'r meta_value = MetaText string | MetaReward 'r | MetaTags "string list"

type_synonym 'r metadata = "'r meta_value dict"

text \<open>
  Modelled from the spec: \<open>generate_metadata\<close> is imported from
  \<open>huggingface_sb3.push_to_hub\<close> and is not among the source files. The spec describes
  its result as a metadata mapping from string keys to scalar or tag values holding the
  algorithm, the environment, the reward statistics and the tags, which always contains
  the supplied mean and std reward values unchanged. The key names and the content of
  the tag list are this model's choice.
\<close>

definition generate_metadata :: "string \<Rightarrow> string \<Rightarrow> 'r \<Rightarrow> 'r \<Rightarrow> 'r metadata" where
  "generate_metadata model_name env_id mean_reward std_reward =
     [(''algorithm'', MetaText model_name),
      (''environment'', MetaText env_id),
      (''mean_reward'', MetaReward mean_reward),
      (''std_reward'', MetaReward std_reward),
      (''tags'', MetaTags [env_id])]"

text \<open>
  Lines 68-110: the three f-strings of \<open>generate_model_card\<close>, one literal per source
  line. \<open>hyperparams_text\<close> and \<open>env_kwargs_text\<close> stand for \<open>pformat(hyperparams)\<close>
  and \<open>pformat(env_kwargs)\<close>.
\<close>

definition model_card_header :: "string \<Rightarrow> string \<Rightarrow> string" where
  "model_card_header algo_class_name env_id =
     ''\<newline>'' @
     ''# **'' @ algo_class_name @ ''** Agent playing **'' @ env_id @ ''**\<newline>'' @
     ''This is a trained model of a **'' @ algo_class_name @ ''** agent playing **'' @ env_id @ ''**\<newline>'' @
     ''using the [stable-baselines3 library](https://github.com/DLR-RM/stable-baselines3)\<newline>'' @
     ''and the [RL Zoo](https://github.com/DLR-RM/rl-baselines3-zoo).\<newline>'' @
     ''\<newline>'' @
     ''The RL Zoo is a training framework for Stable Baselines3\<newline>'' @
     ''reinforcement learning agents,\<newline>'' @
     ''with hyperparameter optimization and pre-trained agents included.\<newline>''"

definition model_card_usage :: "string \<Rightarrow> string \<Rightarrow> string \<Rightarrow> string \<Rightarrow> string" where
  "model_card_usage algo_name env_id organization hyperparams_text =
     ''\<newline>'' @
     ''## Usage (with SB3 RL Zoo)\<newline>'' @
     ''\<newline>'' @
     ''RL Zoo: https://github.com/DLR-RM/rl-baselines3-zoo<br/>\<newline>'' @
     ''SB3: https://github.com/DLR-RM/stable-baselines3<br/>\<newline>'' @
     ''SB3 Contrib: https://github.com/Stable-Baselines-Team/stable-baselines3-contrib\<newline>'' @
     ''\<newline>'' @
     ''```\<newline>'' @
     ''# Download model and save it into the logs/ folder\<newline>'' @
     ''python -m utils.load_from_hub --algo '' @ algo_name @ '' --env '' @ env_id @ '' -orga '' @ organization @ '' -f logs/\<newline>'' @
     ''python enjoy.py --algo '' @ algo_name @ '' --env '' @ env_id @ ''  -f logs/\<newline>'' @
     ''```\<newline>'' @
     ''\<newline>'' @
     ''## Training (with the RL Zoo)\<newline>'' @
     ''```\<newline>'' @
     ''python train.py --algo '' @ algo_name @ '' --env '' @ env_id @ '' -f logs/\<newline>'' @
     ''# Upload the model and generate video (when possible)\<newline>'' @
     ''python -m utils.push_to_hub --algo '' @ algo_name @ '' --env '' @ env_id @ '' -f logs/ -orga '' @ organization @ ''\<newline>'' @
     ''```\<newline>'' @
     ''\<newline>'' @
     ''## Hyperparameters\<newline>'' @
     ''```python\<newline>'' @
     hyperparams_text @ ''\<newline>'' @
     ''```\<newline>''"

definition model_card_env_arguments :: "string \<Rightarrow> string" where
  "model_card_env_arguments env_kwargs_text =
     ''\<newline>'' @
     ''# Environment Arguments\<newline>'' @
     ''```python\<newline>'' @
     env_kwargs_text @ ''\<newline>'' @
     ''```\<newline>''"

text \<open>
  Lines 45-112. \<open>pformat\<close> is Python's \<open>pprint.pformat\<close>, a parameter of the model.
\<close>

definition generate_model_card ::
  "('v dict \<Rightarrow> string) \<Rightarrow> string \<Rightarrow> string \<Rightarrow> string \<Rightarrow> string \<Rightarrow> 'r \<Rightarrow> 'r \<Rightarrow>
   'v dict \<Rightarrow> 'v dict \<Rightarrow> string \<times> 'r metadata" where
  "generate_model_card pformat algo_name algo_class_name organization env_id
       mean_reward std_reward hyperparams env_kwargs =
     (let metadata = generate_metadata algo_class_name env_id mean_reward std_reward;
          model_card0 = model_card_header algo_class_name env_id;
          model_card1 =
            model_card0 @ model_card_usage algo_name env_id organization (pformat hyperparams);
          model_card2 =
            (if length env_kwargs > 0
             then model_card1 @ model_card_env_arguments (pformat env_kwargs)
             else model_card1)
      in (model_card2, metadata))"

text \<open>
  A text has an Environment Arguments section when the heading of line 106 occurs in it.
\<close>

definition env_arguments_heading :: string where
  "env_arguments_heading = ''# Environment Arguments''"

definition has_env_arguments_section :: "string \<Rightarrow> bool" where
  "has_env_arguments_section text = sublist env_arguments_heading text"

text \<open>
  Two texts agree when one is a prefix of the other; \<open>overlaps a b\<close> holds when a
  non-empty suffix of \<open>b\<close> agrees with \<open>a\<close>, that is, when an occurrence of \<open>a\<close> can
  start inside \<open>b\<close>. A fixed piece of text that a pattern neither overlaps nor is
  overlapped by cannot take part in any occurrence of the pattern.
\<close>

fun agree :: "'a list \<Rightarrow> 'a list \<Rightarrow> bool" where
  "agree [] ys = True"
| "agree (x # xs) [] = True"
| "agree (x # xs) (y # ys) = (x = y \<and> agree xs ys)"

fun overlaps :: "'a list \<Rightarrow> 'a list \<Rightarrow> bool" where
  "overlaps a [] = False"
| "overlaps a (y # ys) = (agree (y # ys) a \<or> overlaps a ys)"

definition touches :: "'a list \<Rightarrow> 'a list \<Rightarrow> bool" where
  "touches pat lit = (overlaps pat lit \<or> overlaps lit pat)"

text \<open>
  A text assembled from interpolated pieces, each followed by a fixed piece, and the
  card of an empty \<open>env_kwargs\<close> mapping laid out that way.
\<close>

fun weave :: "('a list \<times> 'a list) list \<Rightarrow> 'a list" where
  "weave [] = []"
| "weave ((hole, lit) # rest) = hole @ lit @ weave rest"

definition model_card_pieces ::
  "string \<Rightarrow> string \<Rightarrow> string \<Rightarrow> string \<Rightarrow> string \<Rightarrow> (string \<times> string) list" where
  "model_card_pieces algo cls org env ht =
      [([],
        ''\<newline>'' @
        ''# **''),
       (cls,
        ''** Agent playing **''),
       (env,
        ''**\<newline>'' @
        ''This is a trained model of a **''),
       (cls,
        ''** agent playing **''),
       (env,
        ''**\<newline>'' @
        ''using the [stable-baselines3 library](https://github.com/DLR-RM/stable-baselines3)\<newline>'' @
        ''and the [RL Zoo](https://github.com/DLR-RM/rl-baselines3-zoo).\<newline>'' @
        ''\<newline>'' @
        ''The RL Zoo is a training framework for Stable Baselines3\<newline>'' @
        ''reinforcement learning agents,\<newline>'' @
        ''with hyperparameter optimization and pre-trained agents included.\<newline>''),
       ([],
        ''\<newline>'' @
        ''## Usage (with SB3 RL Zoo)\<newline>'' @
        ''\<newline>'' @
        ''RL Zoo: https://github.com/DLR-RM/rl-baselines3-zoo<br/>\<newline>'' @
        ''SB3: https://github.com/DLR-RM/stable-baselines3<br/>\<newline>'' @
        ''SB3 Contrib: https://github.com/Stable-Baselines-Team/stable-baselines3-contrib\<newline>'' @
        ''\<newline>'' @
        ''```\<newline>'' @
        ''# Download model and save it into the logs/ folder\<newline>'' @
        ''python -m utils.load_from_hub --algo ''),
       (algo,
        '' --env ''),
       (env,
        '' -orga ''),
       (org,
        '' -f logs/\<newline>'' @
        ''python enjoy.py --algo ''),
       (algo,
        '' --env ''),
       (env,
        ''  -f logs/\<newline>'' @
        ''```\<newline>'' @
        ''\<newline>'' @
        ''## Training (with the RL Zoo)\<newline>'' @
        ''```\<newline>'' @
        ''python train.py --algo ''),
       (algo,
        '' --env ''),
       (env,
        '' -f logs/\<newline>'' @
        ''# Upload the model and generate video (when possible)\<newline>'' @
        ''python -m utils.push_to_hub --algo ''),
       (algo,
        '' --env ''),
       (env,
        '' -f logs/ -orga ''),
       (org,
        ''\<newline>'' @
        ''```\<newline>'' @
        ''\<newline>'' @
        ''## Hyperparameters\<newline>'' @
        ''```python\<newline>''),
       (ht,
        ''\<newline>'' @
        ''```\<newline>'')]"

text \<open>A sample rendering of a mapping of strings, standing in for \<open>pformat\<close> in examples.\<close>

definition example_pformat :: "string dict \<Rightarrow> string" where
  "example_pformat d =
     ''{'' @ concat (map (\<lambda>(k, v). k @ '': '' @ v @ '', '') d) @ ''}''"

section \<open>The packaging pipeline\<close>

text \<open>
  The \<open>VecNormalize\<close> wrapper of the evaluation environment, reduced to the two
  attributes the script assigns.
\<close>

record vec_normalize =
  training :: bool
  norm_reward :: bool

text \<open>
  Files are kept by path, in directory listing order. The content of a file records
  which operation of the script wrote it; \<open>Opaque\<close> is any other file.
\<close>

datatype ('r, 'v) content =
    Directory
  | Opaque string
  | ModelArchive
  | NormalizationStats vec_normalize
  | EnvKwargsYaml "'v dict"
  | MetricsArchive "string list"
  | Readme string "'r metadata option"

type_synonym ('r, 'v) filesystem = "(path \<times> ('r, 'v) content) list"

text \<open>
  The calls with an effect, in the order they complete. \<open>EvaluateAgent\<close> and
  \<open>GenerateReplay\<close> record the state of the wrapper they run with and the
  \<open>is_deterministic\<close> flag; \<open>GenerateModelCard\<close> records the rewards it is given.
\<close>

datatype 'r event =
    CreateRepo string
  | CloneRepo path
  | GitPull
  | LfsTrack
  | ModelSave path
  | VecNormalizeSave path
  | SetTraining bool
  | SetNormReward bool
  | ExtractAll path path
  | CopyFile path path
  | DumpEnvKwargs path
  | WriteArchive path
  | EvaluateAgent "vec_normalize option" bool
  | GenerateReplay "vec_normalize option" bool
  | Unlink path
  | GenerateModelCard 'r 'r
  | WriteReadme path
  | MetadataSave path
  | PushToHub string

record ('r, 'v) world =
  files :: "('r, 'v) filesystem"
  vec_norm :: "vec_normalize option"
  trace :: "'r event list"

text \<open>
  What the libraries do is not in the source: which of their calls raise, the rewards
  that \<open>_evaluate_agent\<close> returns and the temporary files that \<open>_generate_replay\<close>
  leaves in the working directory are parameters of a run.
\<close>

record ('r, 'v) library =
  raises :: "'r event \<Rightarrow> bool"
  eval_result :: "'r \<times> 'r"
  replay_leftovers :: "('r, 'v) filesystem"

text \<open>
  A step returns the error it raised, if any, and the world it leaves. A raising step
  ends the run: nothing in \<open>package_to_hub\<close> catches an exception.
\<close>

type_synonym ('r, 'v) step = "('r, 'v) world \<Rightarrow> error option \<times> ('r, 'v) world"

fun run_steps :: "('r, 'v) step list \<Rightarrow> ('r, 'v) step" where
  "run_steps [] w = (None, w)"
| "run_steps (s # ss) w =
     (case s w of (None, w') \<Rightarrow> run_steps ss w' | (Some e, w') \<Rightarrow> (Some e, w'))"

definition log_event :: "'r event \<Rightarrow> ('r, 'v) step" where
  "log_event ev w = (None, w\<lparr>trace := trace w @ [ev]\<rparr>)"

definition lib_call ::
  "('r, 'v) library \<Rightarrow> 'r event \<Rightarrow> (('r, 'v) world \<Rightarrow> ('r, 'v) world) \<Rightarrow> ('r, 'v) step" where
  "lib_call lib ev effect w =
     (if raises lib ev then (Some LibraryError, w)
      else (None, effect (w\<lparr>trace := trace w @ [ev]\<rparr>)))"

definition write_file ::
  "path \<Rightarrow> ('r, 'v) content \<Rightarrow> ('r, 'v) world \<Rightarrow> ('r, 'v) world" where
  "write_file p c w = w\<lparr>files := AList.update p c (files w)\<rparr>"

definition is_file :: "('r, 'v) filesystem \<Rightarrow> path \<Rightarrow> bool" where
  "is_file fsys p =
     (case map_of fsys p of None \<Rightarrow> False | Some Directory \<Rightarrow> False | Some _ \<Rightarrow> True)"

text \<open>\<open>Path.unlink\<close>: a missing path and a directory raise.\<close>

definition unlink :: "path \<Rightarrow> ('r, 'v) step" where
  "unlink p w =
     (case map_of (files w) p of
        None \<Rightarrow> (Some (FileNotFoundError p), w)
      | Some Directory \<Rightarrow> (Some (IsADirectoryError p), w)
      | Some _ \<Rightarrow>
          (None, w\<lparr>files := AList.delete p (files w), trace := trace w @ [Unlink p]\<rparr>))"

text \<open>\<open>shutil.copy\<close> of a file to a file path.\<close>

definition copy_file :: "path \<Rightarrow> path \<Rightarrow> ('r, 'v) step" where
  "copy_file src dst w =
     (case map_of (files w) src of
        None \<Rightarrow> (Some (FileNotFoundError src), w)
      | Some Directory \<Rightarrow> (Some (IsADirectoryError src), w)
      | Some c \<Rightarrow> (None, write_file dst c (w\<lparr>trace := trace w @ [CopyFile src dst]\<rparr>)))"

text \<open>
  \<open>a / b\<close> on relative paths, and \<open>s.split(sep)\<close> for a one-character separator.
\<close>

definition path_join :: "path \<Rightarrow> path \<Rightarrow> path" where
  "path_join a b = a @ ''/'' @ b"

fun split_on :: "char \<Rightarrow> string \<Rightarrow> string list" where
  "split_on sep [] = [[]]"
| "split_on sep (c # cs) =
     (if c = sep then [] # split_on sep cs
      else (case split_on sep cs of [] \<Rightarrow> [[c]] | part # parts \<Rightarrow> (c # part) # parts))"

text \<open>
  \<open>glob.glob\<close> with a pattern \<open>*<ending>\<close>: the names of one directory that end with
  \<open><ending>\<close> and do not start with a dot, in listing order. \<open>glob_cwd\<close> lists the
  working directory (relative names), \<open>glob_dir\<close> the directory \<open>dir\<close>.
\<close>

definition star_match :: "string \<Rightarrow> string \<Rightarrow> bool" where
  "star_match ending name =
     (suffix ending name \<and> \<not> prefix ''.'' name \<and> CHR ''/'' \<notin> set name)"

definition glob_cwd :: "string \<Rightarrow> ('r, 'v) filesystem \<Rightarrow> path list" where
  "glob_cwd ending fsys = filter (star_match ending) (map fst fsys)"

definition glob_dir :: "path \<Rightarrow> string \<Rightarrow> ('r, 'v) filesystem \<Rightarrow> path list" where
  "glob_dir dir ending fsys =
     filter (\<lambda>p. prefix (dir @ ''/'') p \<and> star_match ending (drop (length dir + 1) p))
       (map fst fsys)"

text \<open>Line 174: \<open>organization, repo_name = repo_id.split("/")\<close>.\<close>

definition unpack_repo_id :: "string \<Rightarrow> (string \<times> string) option" where
  "unpack_repo_id repo_id =
     (case split_on (CHR ''/'') repo_id of
        [organization, repo_name] \<Rightarrow> Some (organization, repo_name)
      | _ \<Rightarrow> None)"

text \<open>Lines 176-192: create the repository, clone it, pull, track videos with LFS.\<close>

definition clone_repo :: "('r, 'v) library \<Rightarrow> string \<Rightarrow> path \<Rightarrow> ('r, 'v) step" where
  "clone_repo lib repo_id repo_local_path =
     run_steps
       [lib_call lib (CreateRepo repo_id) id,
        lib_call lib (CloneRepo repo_local_path) id,
        lib_call lib GitPull id,
        lib_call lib LfsTrack id]"

text \<open>
  Lines 194-195: \<open>model.save\<close> writes the archive \<open><model_name>.zip\<close> that line 210
  opens.
\<close>

definition save_model :: "('r, 'v) library \<Rightarrow> path \<Rightarrow> string \<Rightarrow> ('r, 'v) step" where
  "save_model lib repo_local_path model_name =
     lib_call lib (ModelSave (path_join repo_local_path model_name))
       (write_file (path_join repo_local_path model_name @ ''.zip'') ModelArchive)"

text \<open>Lines 197-207.\<close>

definition set_training :: "bool \<Rightarrow> ('r, 'v) step" where
  "set_training b w =
     (None, w\<lparr>vec_norm := map_option (\<lambda>vn. vn\<lparr>training := b\<rparr>) (vec_norm w),
              trace := trace w @ [SetTraining b]\<rparr>)"

definition set_norm_reward :: "bool \<Rightarrow> ('r, 'v) step" where
  "set_norm_reward b w =
     (None, w\<lparr>vec_norm := map_option (\<lambda>vn. vn\<lparr>norm_reward := b\<rparr>) (vec_norm w),
              trace := trace w @ [SetNormReward b]\<rparr>)"

definition save_normalization :: "('r, 'v) library \<Rightarrow> path \<Rightarrow> ('r, 'v) step" where
  "save_normalization lib repo_local_path w =
     (case vec_norm w of
        None \<Rightarrow> (None, w)
      | Some maybe_vec_normalize \<Rightarrow>
          run_steps
            [lib_call lib (VecNormalizeSave (path_join repo_local_path ''vec_normalize.pkl''))
               (write_file (path_join repo_local_path ''vec_normalize.pkl'')
                  (NormalizationStats maybe_vec_normalize)),
             set_training False,
             set_norm_reward False] w)"

text \<open>Lines 209-211: opening a missing archive raises.\<close>

definition unzip_model :: "('r, 'v) library \<Rightarrow> path \<Rightarrow> string \<Rightarrow> ('r, 'v) step" where
  "unzip_model lib repo_local_path model_name w =
     (let zip_path = path_join repo_local_path (model_name @ ''.zip'');
          target = path_join repo_local_path model_name
      in if is_file (files w) zip_path
         then lib_call lib (ExtractAll zip_path target) (write_file target Directory) w
         else (Some (FileNotFoundError zip_path), w))"

text \<open>Lines 213-220.\<close>

definition copy_config ::
  "('r, 'v) library \<Rightarrow> path \<Rightarrow> string \<Rightarrow> path \<Rightarrow> 'v dict \<Rightarrow> ('r, 'v) step" where
  "copy_config lib log_path env_id repo_local_path env_kwargs =
     (let args_path = path_join (path_join log_path env_id) ''args.yml'';
          config_path = path_join (path_join log_path env_id) ''config.yml''
      in run_steps
           [copy_file args_path (path_join repo_local_path ''args.yml''),
            copy_file config_path (path_join repo_local_path ''config.yml''),
            lib_call lib (DumpEnvKwargs (path_join repo_local_path ''env_kwargs.yml''))
              (write_file (path_join repo_local_path ''env_kwargs.yml'')
                 (EnvKwargsYaml env_kwargs))])"

text \<open>Lines 222-227: the archive members are named by the last path component.\<close>

definition archive_metrics :: "('r, 'v) library \<Rightarrow> path \<Rightarrow> path \<Rightarrow> ('r, 'v) step" where
  "archive_metrics lib log_path repo_local_path w =
     (let members =
            (if is_file (files w) (path_join log_path ''evaluations.npz'')
             then [''evaluations.npz''] else []) @
            map (\<lambda>monitor_file. last (split_on (CHR ''/'') monitor_file))
              (glob_dir log_path ''.csv'' (files w))
      in lib_call lib (WriteArchive (path_join repo_local_path ''train_eval_metrics.zip''))
           (write_file (path_join repo_local_path ''train_eval_metrics.zip'')
              (MetricsArchive members)) w)"

text \<open>Lines 229-230: the evaluation returns the mean and the std reward.\<close>

definition evaluate_agent ::
  "('r, 'v) library \<Rightarrow> bool \<Rightarrow> ('r, 'v) world \<Rightarrow> (error + 'r \<times> 'r) \<times> ('r, 'v) world" where
  "evaluate_agent lib is_deterministic w =
     (let ev = EvaluateAgent (vec_norm w) is_deterministic
      in if raises lib ev then (Inl LibraryError, w)
         else (Inr (eval_result lib), w\<lparr>trace := trace w @ [ev]\<rparr>))"

text \<open>Lines 237-242: the cleanup after the replay.\<close>

definition cleanup_replay_files :: "('r, 'v) step" where
  "cleanup_replay_files w =
     (let video_path = ''test.mp4''
      in case (if is_file (files w) video_path then unlink video_path w else (None, w)) of
           (Some e, w') \<Rightarrow> (Some e, w')
         | (None, w') \<Rightarrow>
             (let json_path = glob_cwd ''.meta.json'' (files w')
              in if length json_path > 0 then unlink (json_path ! 0) w' else (None, w')))"

text \<open>Lines 232-242.\<close>

definition generate_video_step :: "('r, 'v) library \<Rightarrow> bool \<Rightarrow> bool \<Rightarrow> ('r, 'v) step" where
  "generate_video_step lib generate_video is_deterministic w =
     (if generate_video
      then run_steps
             [lib_call lib (GenerateReplay (vec_norm w) is_deterministic)
                (\<lambda>w'. w'\<lparr>files := dict_update (files w') (replay_leftovers lib)\<rparr>),
              cleanup_replay_files] w
      else (None, w))"

text \<open>
  Modelled from the spec: \<open>metadata_save\<close> is imported from
  \<open>huggingface_hub.repocard\<close> and is not among the source files. The spec lists
  \<open>README.md\<close> with embedded metadata block among the files produced, and line 41 says
  that the call saves the metrics to the Readme metadata: it embeds the metadata block in
  the file it is given and keeps the text of the file.
\<close>

definition embed_metadata ::
  "path \<Rightarrow> 'r metadata \<Rightarrow> ('r, 'v) world \<Rightarrow> ('r, 'v) world" where
  "embed_metadata p metadata w =
     (case map_of (files w) p of
        Some (Readme body _) \<Rightarrow> write_file p (Readme body (Some metadata)) w
      | _ \<Rightarrow> w)"

text \<open>Lines 29-42: the README is always overwritten, then the metadata is saved into it.\<close>

definition save_model_card ::
  "('r, 'v) library \<Rightarrow> path \<Rightarrow> string \<Rightarrow> 'r metadata \<Rightarrow> ('r, 'v) step" where
  "save_model_card lib repo_dir generated_model_card metadata =
     (let readme_path = path_join repo_dir ''README.md''
      in run_steps
           [lib_call lib (WriteReadme readme_path)
              (write_file readme_path (Readme generated_model_card None)),
            lib_call lib (MetadataSave readme_path) (embed_metadata readme_path metadata)])"

text \<open>
  Lines 115-262. The arguments that the script only forwards to a library call
  (\<open>model\<close>, \<open>n_eval_episodes\<close>, \<open>token\<close>, \<open>video_length\<close>) are left out; \<open>eval_env\<close> is
  the wrapper state of the world.
\<close>

definition package_to_hub ::
  "('r, 'v) library \<Rightarrow> ('v dict \<Rightarrow> string) \<Rightarrow> string \<Rightarrow> string \<Rightarrow> string \<Rightarrow> path \<Rightarrow>
   'v dict \<Rightarrow> 'v dict \<Rightarrow> string \<Rightarrow> string \<Rightarrow> string \<Rightarrow> bool \<Rightarrow> path \<Rightarrow> bool \<Rightarrow>
   ('r, 'v) step" where
  "package_to_hub lib pformat model_name algo_name algo_class_name log_path
       hyperparams env_kwargs env_id repo_id commit_message is_deterministic
       local_repo_path generate_video w0 =
     (case unpack_repo_id repo_id of
        None \<Rightarrow> (Some ValueError, w0)
      | Some (organization, repo_name) \<Rightarrow>
          (let repo_local_path = path_join local_repo_path repo_name
           in case run_steps
                     [clone_repo lib repo_id repo_local_path,
                      save_model lib repo_local_path model_name,
                      save_normalization lib repo_local_path,
                      unzip_model lib repo_local_path model_name,
                      copy_config lib log_path env_id repo_local_path env_kwargs,
                      archive_metrics lib log_path repo_local_path] w0 of
                (Some e, w1) \<Rightarrow> (Some e, w1)
              | (None, w1) \<Rightarrow>
                  (case evaluate_agent lib is_deterministic w1 of
                     (Inl e, w2) \<Rightarrow> (Some e, w2)
                   | (Inr (mean_reward, std_reward), w2) \<Rightarrow>
                       (case generate_video_step lib generate_video is_deterministic w2 of
                          (Some e, w3) \<Rightarrow> (Some e, w3)
                        | (None, w3) \<Rightarrow>
                            (case generate_model_card pformat algo_name algo_class_name
                                    organization env_id mean_reward std_reward
                                    hyperparams env_kwargs of
                               (generated_model_card, metadata) \<Rightarrow>
                                 run_steps
                                   [log_event (GenerateModelCard mean_reward std_reward),
                                    save_model_card lib repo_local_path
                                      generated_model_card metadata,
                                    lib_call lib (PushToHub commit_message) id] w3)))))"

text \<open>
  \<open>before P Q tr\<close>: every event of \<open>tr\<close> that satisfies \<open>Q\<close> comes after an event that
  satisfies \<open>P\<close>.
\<close>

fun before :: "('e \<Rightarrow> bool) \<Rightarrow> ('e \<Rightarrow> bool) \<Rightarrow> 'e list \<Rightarrow> bool" where
  "before P Q [] = True"
| "before P Q (e # es) = (if Q e then False else if P e then True else before P Q es)"


definition is_evaluation :: "'r event \<Rightarrow> bool" where
  "is_evaluation e = (case e of EvaluateAgent _ _ \<Rightarrow> True | _ \<Rightarrow> False)"



definition is_stats_save :: "'r event \<Rightarrow> bool" where
  "is_stats_save e = (case e of VecNormalizeSave _ \<Rightarrow> True | _ \<Rightarrow> False)"

definition is_attribute_set :: "'r event \<Rightarrow> bool" where
  "is_attribute_set e =
     (case e of SetTraining _ \<Rightarrow> True | SetNormReward _ \<Rightarrow> True | _ \<Rightarrow> False)"

text \<open>An example world: a log folder with the configuration files, no wrapper.\<close>

definition example_world :: "(int, string) world" where
  "example_world =
     \<lparr>files = [(''logs/ppo/CartPole-v1_1/CartPole-v1/args.yml'', Opaque ''args''),
               (''logs/ppo/CartPole-v1_1/CartPole-v1/config.yml'', Opaque ''config''),
               (''logs/ppo/CartPole-v1_1/evaluations.npz'', Opaque ''npz''),
               (''logs/ppo/CartPole-v1_1/0.monitor.csv'', Opaque ''csv'')],
      vec_norm = None,
      trace = []\<rparr>"

definition example_library :: "(int, string) library" where
  "example_library =
     \<lparr>raises = (\<lambda>ev. False),
      eval_result = (500, 0),
      replay_leftovers = [(''test.mp4'', Opaque ''video''),
                          (''test.meta.json'', Opaque ''meta'')]\<rparr>"

text \<open>
  The wrapper as the evaluation sees it, and the events of a complete run: \<open>wrapper\<close> is
  the wrapper state at the start, \<open>rewards\<close> what the evaluation returns and \<open>removed\<close>
  the temporary files that the cleanup unlinks.
\<close>

definition test_mode :: "vec_normalize option \<Rightarrow> vec_normalize option" where
  "test_mode wrapper =
     map_option (\<lambda>vn. vn\<lparr>training := False, norm_reward := False\<rparr>) wrapper"

definition pipeline_events ::
  "string \<Rightarrow> path \<Rightarrow> string \<Rightarrow> path \<Rightarrow> string \<Rightarrow> string \<Rightarrow> bool \<Rightarrow> bool \<Rightarrow>
   vec_normalize option \<Rightarrow> 'r \<times> 'r \<Rightarrow> path list \<Rightarrow> 'r event list" where
  "pipeline_events repo_id repo_local_path model_name log_path env_id commit_message
       is_deterministic generate_video wrapper rewards removed =
     [CreateRepo repo_id, CloneRepo repo_local_path, GitPull, LfsTrack,
      ModelSave (path_join repo_local_path model_name)] @
     (case wrapper of
        None \<Rightarrow> []
      | Some _ \<Rightarrow>
          [VecNormalizeSave (path_join repo_local_path ''vec_normalize.pkl''),
           SetTraining False, SetNormReward False]) @
     [ExtractAll (path_join repo_local_path (model_name @ ''.zip''))
        (path_join repo_local_path model_name),
      CopyFile (path_join (path_join log_path env_id) ''args.yml'')
        (path_join repo_local_path ''args.yml''),
      CopyFile (path_join (path_join log_path env_id) ''config.yml'')
        (path_join repo_local_path ''config.yml''),
      DumpEnvKwargs (path_join repo_local_path ''env_kwargs.yml''),
      WriteArchive (path_join repo_local_path ''train_eval_metrics.zip''),
      EvaluateAgent (test_mode wrapper) is_deterministic] @
     (if generate_video
      then GenerateReplay (test_mode wrapper) is_deterministic # map Unlink removed
      else []) @
     [GenerateModelCard (fst rewards) (snd rewards),
      WriteReadme (path_join repo_local_path ''README.md''),
      MetadataSave (path_join repo_local_path ''README.md''),
      PushToHub commit_message]"

text \<open>
  \<open>conforms s f G\<close>: from any world, the step \<open>s\<close> appends a prefix of the event list
  that \<open>f\<close> gives for the wrapper it starts with and some list of removed files, the
  whole list when it does not raise, and then leaves the wrapper \<open>G\<close> gives; a run
  without wrapper stays without.
\<close>

definition conforms ::
  "('r, 'v) step \<Rightarrow> (vec_normalize option \<Rightarrow> path list \<Rightarrow> 'r event list) \<Rightarrow>
   (vec_normalize option \<Rightarrow> vec_normalize option) \<Rightarrow> bool" where
  "conforms s f G \<longleftrightarrow>
     (\<forall>w. \<exists>removed es.
        trace (snd (s w)) = trace w @ es \<and> prefix es (f (vec_norm w) removed) \<and>
        (fst (s w) = None \<longrightarrow>
           es = f (vec_norm w) removed \<and> vec_norm (snd (s w)) = G (vec_norm w)) \<and>
        (vec_norm w = None \<longrightarrow> vec_norm (snd (s w)) = None))"

definition seq :: "('r, 'v) step \<Rightarrow> ('r, 'v) step \<Rightarrow> ('r, 'v) step" where
  "seq s1 s2 w = (case s1 w of (None, w') \<Rightarrow> s2 w' | (Some e, w') \<Rightarrow> (Some e, w'))"

definition evaluation_step :: "('r, 'v) library \<Rightarrow> bool \<Rightarrow> ('r, 'v) step" where
  "evaluation_step lib is_deterministic w =
     (case evaluate_agent lib is_deterministic w of
        (Inl e, w') \<Rightarrow> (Some e, w')
      | (Inr _, w') \<Rightarrow> (None, w'))"

text \<open>
  Example runs: the packaging of the PPO agent for \<open>acme/ppo-CartPole-v1\<close>, with and
  without video, and the same with a \<open>VecNormalize\<close> wrapper in training mode.
\<close>

definition example_run :: "bool \<Rightarrow> (int, string) world \<Rightarrow> error option \<times> (int, string) world" where
  "example_run generate_video w0 =
     package_to_hub example_library example_pformat ''ppo-CartPole-v1'' ''ppo'' ''PPO''
       ''logs/ppo/CartPole-v1_1'' [(''n_steps'', ''32'')] [] ''CartPole-v1''
       ''acme/ppo-CartPole-v1'' ''Initial commit'' True ''hub'' generate_video w0"

definition example_wrapped_world :: "(int, string) world" where
  "example_wrapped_world =
     example_world\<lparr>vec_norm := Some \<lparr>training = True, norm_reward = True\<rparr>\<rparr>"

section \<open>Properties of the entry point\<close>

lemma main_resolve_Inr:
  assumes "main_resolve is_atari loaded a = Inr l"
  obtains stored where "load_env_kwargs loaded = Inr stored"
    and "test_env_kwargs l = overwrite_env_kwargs stored (args_env_kwargs a)"
    and "pkg_env_kwargs l = test_env_kwargs l"
    and "test_env_n_envs l = args_n_envs (force_single_env a)"
    and "pkg_is_deterministic l =
           (\<not> resolve_stochastic (args_stochastic a) (is_atari (args_env a)) (args_deterministic a))"
    and "pkg_repo_id l =
           make_repo_id (args_organization a)
             (case args_repo_name a of None \<Rightarrow> default_model_name (args_algo a) (args_env a)
              | Some n \<Rightarrow> n)"
  using assms
  by (auto simp: main_resolve_def Let_def force_single_env_def split: sum.splits)

text \<open>
  Claim C1. If \<open>--stochastic\<close> is set, or the environment is atari-like and
  \<open>--deterministic\<close> is not set, the run uses stochastic actions
  (\<open>is_deterministic = False\<close>); in every other case \<open>is_deterministic = True\<close>.
\<close>

theorem is_deterministic_resolution:
  assumes "main_resolve is_atari loaded a = Inr l"
  shows "pkg_is_deterministic l =
           (if args_stochastic a \<or> (is_atari (args_env a) \<and> \<not> args_deterministic a)
            then False else True)"
  using assms by (elim main_resolve_Inr) (simp add: resolve_stochastic_def)

theorem is_deterministic_resolution_witness:
  "(\<exists>l. main_resolve example_is_atari None
           (example_args\<lparr>args_env := ''PongNoFrameskip-v4''\<rparr>) = Inr l
        \<and> pkg_is_deterministic l = False)
   \<and> (\<exists>l. main_resolve example_is_atari None
           (example_args\<lparr>args_env := ''PongNoFrameskip-v4'', args_deterministic := True\<rparr>) = Inr l
        \<and> pkg_is_deterministic l = True)
   \<and> (\<exists>l. main_resolve example_is_atari None (example_args\<lparr>args_stochastic := True\<rparr>) = Inr l
        \<and> pkg_is_deterministic l = False)
   \<and> (\<exists>l. main_resolve example_is_atari None example_args = Inr l
        \<and> pkg_is_deterministic l = True)"
proof -
  have run: "\<exists>l. main_resolve example_is_atari None a = Inr l" for a :: "int args"
    by (simp add: main_resolve_def load_env_kwargs_def Let_def)
  have pick: "\<exists>l. main_resolve example_is_atari None a = Inr l \<and> pkg_is_deterministic l = b"
    if "(if args_stochastic a \<or> (example_is_atari (args_env a) \<and> \<not> args_deterministic a)
         then False else True) = b" for a :: "int args" and b
  proof -
    obtain l where l: "main_resolve example_is_atari None a = Inr l"
      using run by blast
    from is_deterministic_resolution [OF l] that have "pkg_is_deterministic l = b"
      by simp
    with l show ?thesis by blast
  qed
  show ?thesis
    by (intro conjI pick) (simp_all add: example_args_def example_is_atari_def)
qed

text \<open>
  Claim C3. The repository id passed to the packaging pipeline is the organization, a
  \<open>/\<close>, and the supplied repo name with every \<open>/\<close> replaced by \<open>-\<close>; when no
  repo name is supplied the repo name is \<open><algo>-<env_id>\<close>, so for algo \<open>ppo\<close>,
  env \<open>CartPole-v1\<close> and organization \<open>acme\<close> the repo id is \<open>acme/ppo-CartPole-v1\<close>.
\<close>

theorem repo_id_construction:
  assumes "main_resolve is_atari loaded a = Inr l"
  shows "pkg_repo_id l =
           args_organization a @ ''/'' @
           map (\<lambda>c. if c = CHR ''/'' then CHR ''-'' else c)
             (case args_repo_name a of
                None \<Rightarrow> args_algo a @ ''-'' @ args_env a
              | Some supplied \<Rightarrow> supplied)
         \<and> (args_algo a = ''ppo'' \<and> args_env a = ''CartPole-v1'' \<and>
            args_organization a = ''acme'' \<and> args_repo_name a = None \<longrightarrow>
            pkg_repo_id l = ''acme/ppo-CartPole-v1'')"
  using assms
  by (elim main_resolve_Inr)
     (simp add: make_repo_id_def str_replace_def default_model_name_def split: option.splits)

theorem repo_id_construction_witness:
  "(\<exists>l. main_resolve example_is_atari None example_args = Inr l
        \<and> pkg_repo_id l = ''acme/ppo-CartPole-v1'')
   \<and> (\<exists>l. main_resolve example_is_atari None
             (example_args\<lparr>args_repo_name := Some ''zoo/ppo/cart''\<rparr>) = Inr l
        \<and> pkg_repo_id l = ''acme/zoo-ppo-cart'')"
proof -
  obtain l where l: "main_resolve example_is_atari None example_args = Inr l"
    by (simp add: main_resolve_def load_env_kwargs_def Let_def)
  have "pkg_repo_id l = ''acme/ppo-CartPole-v1''"
    using repo_id_construction [OF l] by (simp add: example_args_def)
  with l have first: "\<exists>l. main_resolve example_is_atari None example_args = Inr l
        \<and> pkg_repo_id l = ''acme/ppo-CartPole-v1''"
    by blast
  obtain l' where l': "main_resolve example_is_atari None
       (example_args\<lparr>args_repo_name := Some ''zoo/ppo/cart''\<rparr>) = Inr l'"
    by (simp add: main_resolve_def load_env_kwargs_def Let_def)
  have "pkg_repo_id l' = ''acme/zoo-ppo-cart''"
    using repo_id_construction [OF l'] by (simp add: example_args_def)
  with l' first show ?thesis by blast
qed

text \<open>
  Claim C4. For every algorithm id in the off-policy set
  \<open>{qrdqn, dqn, ddpg, sac, her, td3, tqc}\<close> and every requested environment count, the
  count used to build the evaluation environment is 1; for algorithms outside that set
  the requested count is used unchanged.
\<close>

theorem off_policy_single_env:
  assumes "main_resolve is_atari loaded a = Inr l"
  shows "(args_algo a \<in> {''qrdqn'', ''dqn'', ''ddpg'', ''sac'', ''her'', ''td3'', ''tqc''}
            \<longrightarrow> test_env_n_envs l = 1)
         \<and> (args_algo a \<notin> {''qrdqn'', ''dqn'', ''ddpg'', ''sac'', ''her'', ''td3'', ''tqc''}
            \<longrightarrow> test_env_n_envs l = args_n_envs a)"
  using assms
  by (elim main_resolve_Inr) (simp add: force_single_env_def off_policy_algos_def)

theorem off_policy_single_env_witness:
  "(\<exists>l. main_resolve example_is_atari None (example_args\<lparr>args_algo := ''sac''\<rparr>) = Inr l
        \<and> test_env_n_envs l = 1)
   \<and> (\<exists>l. main_resolve example_is_atari None example_args = Inr l
        \<and> test_env_n_envs l = 4)"
proof -
  obtain l where l: "main_resolve example_is_atari None
       (example_args\<lparr>args_algo := ''sac''\<rparr>) = Inr l"
    by (simp add: main_resolve_def load_env_kwargs_def Let_def)
  have "test_env_n_envs l = 1"
    using off_policy_single_env [OF l] by (simp add: example_args_def)
  with l have first: "\<exists>l. main_resolve example_is_atari None
       (example_args\<lparr>args_algo := ''sac''\<rparr>) = Inr l \<and> test_env_n_envs l = 1"
    by blast
  obtain l' where l': "main_resolve example_is_atari None example_args = Inr l'"
    by (simp add: main_resolve_def load_env_kwargs_def Let_def)
  have "test_env_n_envs l' = 4"
    using off_policy_single_env [OF l'] by (simp add: example_args_def)
  with l' first show ?thesis by blast
qed

subsection \<open>Environment keyword arguments\<close>

lemma map_of_dict_update:
  "map_of (dict_update d other) = map_of d ++ map_of (rev other)"
  unfolding dict_update_def
  by (induction other arbitrary: d) (auto simp: update_conv' map_add_upd_left)

lemma map_of_rev_distinct:
  "distinct (map fst xs) \<Longrightarrow> map_of (rev xs) = map_of xs"
proof (induction xs)
  case Nil
  show ?case by simp
next
  case (Cons x xs)
  obtain k v where x: "x = (k, v)" by (cases x)
  from Cons.prems x have fresh: "map_of xs k = None"
    by (simp add: map_of_eq_None_iff)
  from Cons have IH: "map_of (rev xs) = map_of xs" by simp
  show ?case
  proof
    fix k'
    show "map_of (rev (x # xs)) k' = map_of (x # xs) k'"
      using fresh by (simp add: x IH map_add_def split: option.splits)
  qed
qed

lemma dict_update_lookup:
  assumes "distinct (map fst other)"
  shows "map_of (dict_update d other) k =
           (case map_of other k of Some v \<Rightarrow> Some v | None \<Rightarrow> map_of d k)"
  by (simp add: map_of_dict_update map_of_rev_distinct [OF assms] map_add_def)

lemma main_resolve_fails_iff:
  "main_resolve is_atari loaded a = Inl e \<longleftrightarrow>
     (\<exists>loaded_args. loaded = Some loaded_args
        \<and> map_of loaded_args ''env_kwargs'' = None \<and> e = KeyError ''env_kwargs'')"
  by (auto simp: main_resolve_def load_env_kwargs_def Let_def
           split: sum.splits option.splits)

text \<open>
  Claim C10. The effective \<open>env_kwargs\<close> start from the mapping stored under
  \<open>env_kwargs\<close> in the saved \<open>args.yml\<close> (empty if the file is absent or the stored value
  is \<open>None\<close>) and are then overridden by \<open>--env-kwargs\<close>: for a key present in both the
  command line value wins, a key present only in the file keeps its stored value.
  Whenever the file is absent or has the key, the resolution succeeds, and the same
  mapping goes to the environment and to the packaging pipeline.
\<close>

theorem env_kwargs_resolution:
  assumes "loaded = None \<or>
           (\<exists>loaded_args stored. loaded = Some loaded_args
              \<and> map_of loaded_args ''env_kwargs'' = Some stored)"
    and "distinct (map fst (case args_env_kwargs a of None \<Rightarrow> [] | Some given \<Rightarrow> given))"
  shows "\<exists>l. main_resolve is_atari loaded a = Inr l
       \<and> (\<forall>k. map_of (test_env_kwargs l) k =
             (case map_of (case args_env_kwargs a of None \<Rightarrow> [] | Some given \<Rightarrow> given) k of
                Some v \<Rightarrow> Some v
              | None \<Rightarrow>
                  map_of (case loaded of
                            None \<Rightarrow> []
                          | Some loaded_args \<Rightarrow>
                              (case map_of loaded_args ''env_kwargs'' of
                                 Some (Some stored) \<Rightarrow> stored
                               | _ \<Rightarrow> [])) k))
       \<and> pkg_env_kwargs l = test_env_kwargs l"
proof -
  from assms(1) obtain l where l: "main_resolve is_atari loaded a = Inr l"
    by (cases "main_resolve is_atari loaded a") (auto simp: main_resolve_fails_iff)
  from l assms(2) have "\<forall>k. map_of (test_env_kwargs l) k =
             (case map_of (case args_env_kwargs a of None \<Rightarrow> [] | Some given \<Rightarrow> given) k of
                Some v \<Rightarrow> Some v
              | None \<Rightarrow>
                  map_of (case loaded of
                            None \<Rightarrow> []
                          | Some loaded_args \<Rightarrow>
                              (case map_of loaded_args ''env_kwargs'' of
                                 Some (Some stored) \<Rightarrow> stored
                               | _ \<Rightarrow> [])) k)"
    by (elim main_resolve_Inr)
       (auto simp: overwrite_env_kwargs_def load_env_kwargs_def dict_update_lookup
             split: option.splits)
  moreover from l have "pkg_env_kwargs l = test_env_kwargs l"
    by (elim main_resolve_Inr) simp
  ultimately show ?thesis using l by blast
qed

text \<open>
  The three starting points at concrete inputs: no \<open>args.yml\<close>, a stored \<open>None\<close>, and a
  stored mapping that the command line overrides in one key and extends by another.
\<close>

theorem env_kwargs_resolution_witness:
  "(\<exists>l. main_resolve example_is_atari None
          (example_args\<lparr>args_env_kwargs := Some [(''gravity'', 10), (''mass'', 3)]\<rparr>) = Inr l
       \<and> map_of (test_env_kwargs l) ''gravity'' = Some 10
       \<and> map_of (test_env_kwargs l) ''mass'' = Some 3
       \<and> map_of (test_env_kwargs l) ''length'' = None)
   \<and> (\<exists>l. main_resolve example_is_atari None example_args = Inr l
       \<and> map_of (test_env_kwargs l) ''gravity'' = None)
   \<and> (\<exists>l. main_resolve example_is_atari (Some [(''seed'', None), (''env_kwargs'', None)])
          (example_args\<lparr>args_env_kwargs := Some [(''gravity'', 10), (''mass'', 3)]\<rparr>) = Inr l
       \<and> map_of (test_env_kwargs l) ''gravity'' = Some 10
       \<and> map_of (test_env_kwargs l) ''mass'' = Some 3
       \<and> map_of (test_env_kwargs l) ''length'' = None)
   \<and> (\<exists>l. main_resolve example_is_atari (Some example_loaded_args)
          (example_args\<lparr>args_env_kwargs := Some [(''gravity'', 10), (''mass'', 3)]\<rparr>) = Inr l
       \<and> map_of (test_env_kwargs l) ''gravity'' = Some 10
       \<and> map_of (test_env_kwargs l) ''length'' = Some 2
       \<and> map_of (test_env_kwargs l) ''mass'' = Some 3
       \<and> map_of (test_env_kwargs l) ''other'' = None
       \<and> pkg_env_kwargs l = test_env_kwargs l)
   \<and> (\<exists>l. main_resolve example_is_atari (Some example_loaded_args) example_args = Inr l
       \<and> map_of (test_env_kwargs l) ''gravity'' = Some 9
       \<and> map_of (test_env_kwargs l) ''length'' = Some 2
       \<and> map_of (test_env_kwargs l) ''mass'' = None)"
proof -
  let ?cli = "example_args\<lparr>args_env_kwargs := Some [(''gravity'', 10), (''mass'', 3)]\<rparr>"
  have d: "distinct (map fst (case args_env_kwargs ?cli of None \<Rightarrow> [] | Some given \<Rightarrow> given))"
    "distinct (map fst (case args_env_kwargs example_args of None \<Rightarrow> [] | Some given \<Rightarrow> given))"
    by (simp_all add: example_args_def)
  have absent: "(None :: int loaded_args option) = None \<or>
           (\<exists>loaded_args stored. (None :: int loaded_args option) = Some loaded_args
              \<and> map_of loaded_args ''env_kwargs'' = Some stored)"
    by simp
  have null: "Some [(''seed'', None), (''env_kwargs'', None)] = (None :: int loaded_args option) \<or>
           (\<exists>loaded_args stored.
              Some [(''seed'', None), (''env_kwargs'', None :: int dict option)] = Some loaded_args
              \<and> map_of loaded_args ''env_kwargs'' = Some stored)"
    by simp
  have stored: "Some example_loaded_args = None \<or>
           (\<exists>loaded_args stored. Some example_loaded_args = Some loaded_args
              \<and> map_of loaded_args ''env_kwargs'' = Some stored)"
    by (simp add: example_loaded_args_def)
  have 1: "\<exists>l. main_resolve example_is_atari None ?cli = Inr l
       \<and> map_of (test_env_kwargs l) ''gravity'' = Some 10
       \<and> map_of (test_env_kwargs l) ''mass'' = Some 3
       \<and> map_of (test_env_kwargs l) ''length'' = None"
  proof -
    from env_kwargs_resolution [OF absent d(1), of example_is_atari]
    obtain l where l: "main_resolve example_is_atari None ?cli = Inr l"
      and k: "\<And>k. map_of (test_env_kwargs l) k =
             (case map_of (case args_env_kwargs ?cli of None \<Rightarrow> [] | Some given \<Rightarrow> given) k of
                Some v \<Rightarrow> Some v
              | None \<Rightarrow>
                  map_of (case (None :: int loaded_args option) of
                            None \<Rightarrow> []
                          | Some loaded_args \<Rightarrow>
                              (case map_of loaded_args ''env_kwargs'' of
                                 Some (Some stored) \<Rightarrow> stored
                               | _ \<Rightarrow> [])) k)"
      and p: "pkg_env_kwargs l = test_env_kwargs l"
      by blast
    have v0: "map_of (test_env_kwargs l) ''gravity'' = Some 10"
      using k [of "''gravity''"] by (simp add: example_args_def)
    have v1: "map_of (test_env_kwargs l) ''mass'' = Some 3"
      using k [of "''mass''"] by (simp add: example_args_def)
    have v2: "map_of (test_env_kwargs l) ''length'' = None"
      using k [of "''length''"] by (simp add: example_args_def)
    from l v0 v1 v2 show ?thesis by blast
  qed
  have 2: "\<exists>l. main_resolve example_is_atari None example_args = Inr l
       \<and> map_of (test_env_kwargs l) ''gravity'' = None"
  proof -
    from env_kwargs_resolution [OF absent d(2), of example_is_atari]
    obtain l where l: "main_resolve example_is_atari None example_args = Inr l"
      and k: "\<And>k. map_of (test_env_kwargs l) k =
             (case map_of (case args_env_kwargs example_args of None \<Rightarrow> [] | Some given \<Rightarrow> given) k of
                Some v \<Rightarrow> Some v
              | None \<Rightarrow>
                  map_of (case (None :: int loaded_args option) of
                            None \<Rightarrow> []
                          | Some loaded_args \<Rightarrow>
                              (case map_of loaded_args ''env_kwargs'' of
                                 Some (Some stored) \<Rightarrow> stored
                               | _ \<Rightarrow> [])) k)"
      and p: "pkg_env_kwargs l = test_env_kwargs l"
      by blast
    have v0: "map_of (test_env_kwargs l) ''gravity'' = None"
      using k [of "''gravity''"] by (simp add: example_args_def)
    from l v0 show ?thesis by blast
  qed
  have 3: "\<exists>l. main_resolve example_is_atari (Some [(''seed'', None), (''env_kwargs'', None)]) ?cli = Inr l
       \<and> map_of (test_env_kwargs l) ''gravity'' = Some 10
       \<and> map_of (test_env_kwargs l) ''mass'' = Some 3
       \<and> map_of (test_env_kwargs l) ''length'' = None"
  proof -
    from env_kwargs_resolution [OF null d(1), of example_is_atari]
    obtain l where l: "main_resolve example_is_atari (Some [(''seed'', None), (''env_kwargs'', None)]) ?cli = Inr l"
      and k: "\<And>k. map_of (test_env_kwargs l) k =
             (case map_of (case args_env_kwargs ?cli of None \<Rightarrow> [] | Some given \<Rightarrow> given) k of
                Some v \<Rightarrow> Some v
              | None \<Rightarrow>
                  map_of (case (Some [(''seed'', None), (''env_kwargs'', None)] :: int loaded_args option) of
                            None \<Rightarrow> []
                          | Some loaded_args \<Rightarrow>
                              (case map_of loaded_args ''env_kwargs'' of
                                 Some (Some stored) \<Rightarrow> stored
                               | _ \<Rightarrow> [])) k)"
      and p: "pkg_env_kwargs l = test_env_kwargs l"
      by blast
    have v0: "map_of (test_env_kwargs l) ''gravity'' = Some 10"
      using k [of "''gravity''"] by (simp add: example_args_def)
    have v1: "map_of (test_env_kwargs l) ''mass'' = Some 3"
      using k [of "''mass''"] by (simp add: example_args_def)
    have v2: "map_of (test_env_kwargs l) ''length'' = None"
      using k [of "''length''"] by (simp add: example_args_def)
    from l v0 v1 v2 show ?thesis by blast
  qed
  have 4: "\<exists>l. main_resolve example_is_atari (Some example_loaded_args) ?cli = Inr l
       \<and> map_of (test_env_kwargs l) ''gravity'' = Some 10
       \<and> map_of (test_env_kwargs l) ''length'' = Some 2
       \<and> map_of (test_env_kwargs l) ''mass'' = Some 3
       \<and> map_of (test_env_kwargs l) ''other'' = None
       \<and> pkg_env_kwargs l = test_env_kwargs l"
  proof -
    from env_kwargs_resolution [OF stored d(1), of example_is_atari]
    obtain l where l: "main_resolve example_is_atari (Some example_loaded_args) ?cli = Inr l"
      and k: "\<And>k. map_of (test_env_kwargs l) k =
             (case map_of (case args_env_kwargs ?cli of None \<Rightarrow> [] | Some given \<Rightarrow> given) k of
                Some v \<Rightarrow> Some v
              | None \<Rightarrow>
                  map_of (case Some example_loaded_args of
                            None \<Rightarrow> []
                          | Some loaded_args \<Rightarrow>
                              (case map_of loaded_args ''env_kwargs'' of
                                 Some (Some stored) \<Rightarrow> stored
                               | _ \<Rightarrow> [])) k)"
      and p: "pkg_env_kwargs l = test_env_kwargs l"
      by blast
    have v0: "map_of (test_env_kwargs l) ''gravity'' = Some 10"
      using k [of "''gravity''"] by (simp add: example_args_def example_loaded_args_def)
    have v1: "map_of (test_env_kwargs l) ''length'' = Some 2"
      using k [of "''length''"] by (simp add: example_args_def example_loaded_args_def)
    have v2: "map_of (test_env_kwargs l) ''mass'' = Some 3"
      using k [of "''mass''"] by (simp add: example_args_def example_loaded_args_def)
    have v3: "map_of (test_env_kwargs l) ''other'' = None"
      using k [of "''other''"] by (simp add: example_args_def example_loaded_args_def)
    from l v0 v1 v2 v3 p show ?thesis by blast
  qed
  have 5: "\<exists>l. main_resolve example_is_atari (Some example_loaded_args) example_args = Inr l
       \<and> map_of (test_env_kwargs l) ''gravity'' = Some 9
       \<and> map_of (test_env_kwargs l) ''length'' = Some 2
       \<and> map_of (test_env_kwargs l) ''mass'' = None"
  proof -
    from env_kwargs_resolution [OF stored d(2), of example_is_atari]
    obtain l where l: "main_resolve example_is_atari (Some example_loaded_args) example_args = Inr l"
      and k: "\<And>k. map_of (test_env_kwargs l) k =
             (case map_of (case args_env_kwargs example_args of None \<Rightarrow> [] | Some given \<Rightarrow> given) k of
                Some v \<Rightarrow> Some v
              | None \<Rightarrow>
                  map_of (case Some example_loaded_args of
                            None \<Rightarrow> []
                          | Some loaded_args \<Rightarrow>
                              (case map_of loaded_args ''env_kwargs'' of
                                 Some (Some stored) \<Rightarrow> stored
                               | _ \<Rightarrow> [])) k)"
      and p: "pkg_env_kwargs l = test_env_kwargs l"
      by blast
    have v0: "map_of (test_env_kwargs l) ''gravity'' = Some 9"
      using k [of "''gravity''"] by (simp add: example_args_def example_loaded_args_def)
    have v1: "map_of (test_env_kwargs l) ''length'' = Some 2"
      using k [of "''length''"] by (simp add: example_args_def example_loaded_args_def)
    have v2: "map_of (test_env_kwargs l) ''mass'' = None"
      using k [of "''mass''"] by (simp add: example_args_def example_loaded_args_def)
    from l v0 v1 v2 show ?thesis by blast
  qed
  from 1 2 3 4 5 show ?thesis by (intro conjI)
qed

section \<open>Properties of the model card\<close>

subsection \<open>Where a pattern can occur in an assembled text\<close>

lemma agree_iff: "agree a b \<longleftrightarrow> prefix a b \<or> prefix b a"
  by (induction a b rule: agree.induct) auto

lemma agree_append: "a @ y = b @ q \<Longrightarrow> agree a b"
  by (auto simp: agree_iff append_eq_append_conv2)

lemma overlaps_iff: "overlaps a b \<longleftrightarrow> (\<exists>s. s \<noteq> [] \<and> suffix s b \<and> agree s a)"
proof (induction b)
  case Nil
  show ?case by simp
next
  case (Cons y ys)
  show ?case
    by (auto simp: Cons suffix_Cons)
qed

lemma separation:
  assumes nt: "\<not> touches m L" and sub: "sublist m (x @ L @ y)"
  shows "sublist m x \<or> sublist m y"
proof -
  from sub obtain p q where eq: "x @ L @ y = p @ m @ q"
    by (auto simp: sublist_def)
  from nt have no1: "\<And>s. s \<noteq> [] \<Longrightarrow> suffix s L \<Longrightarrow> \<not> agree s m"
    and no2: "\<And>s. s \<noteq> [] \<Longrightarrow> suffix s m \<Longrightarrow> \<not> agree s L"
    by (auto simp: touches_def overlaps_iff)
  from eq consider
      (A) us where "x = p @ us" "us @ L @ y = m @ q"
    | (B) us where "x @ us = p" "L @ y = us @ m @ q"
    using append_eq_append_conv2 [of x "L @ y" p "m @ q"] by blast
  then show ?thesis
  proof cases
    case A
    from A(2) consider
        (A1) vs where "us = m @ vs"
      | (A2) vs where "us @ vs = m" "L @ y = vs @ q"
      using append_eq_append_conv2 [of us "L @ y" m q] by blast
    then show ?thesis
    proof cases
      case A1
      with A(1) have "x = p @ m @ vs" by simp
      then show ?thesis by (auto simp: sublist_def)
    next
      case A2
      show ?thesis
      proof (cases "vs = []")
        case True
        with A2 A(1) have "x = p @ m @ []" by simp
        then show ?thesis unfolding sublist_def by blast
      next
        case False
        from A2(1) have "suffix vs m" by (auto simp: suffix_def)
        moreover from A2(2) have "agree vs L" by (metis agree_append)
        ultimately show ?thesis using no2 [OF False] by blast
      qed
    qed
  next
    case B
    from B(2) consider
        (B1) ws where "L = us @ ws" "ws @ y = m @ q"
      | (B2) ws where "L @ ws = us" "y = ws @ m @ q"
      using append_eq_append_conv2 [of L y us "m @ q"] by blast
    then show ?thesis
    proof cases
      case B1
      show ?thesis
      proof (cases "ws = []")
        case True
        with B1 have "y = [] @ m @ q" by simp
        then show ?thesis unfolding sublist_def by blast
      next
        case False
        from B1(1) have "suffix ws L" by (auto simp: suffix_def)
        moreover from B1(2) have "agree ws m" by (rule agree_append)
        ultimately show ?thesis using no1 [OF False] by blast
      qed
    next
      case B2
      then show ?thesis by (auto simp: sublist_def)
    qed
  qed
qed

lemma weave_sublist:
  assumes "m \<noteq> []" and "\<forall>(hole, lit) \<in> set pieces. \<not> touches m lit"
    and "sublist m (weave pieces)"
  shows "\<exists>(hole, lit) \<in> set pieces. sublist m hole"
  using assms(2,3)
proof (induction pieces)
  case Nil
  with assms(1) show ?case by simp
next
  case (Cons piece pieces)
  obtain hole lit where piece: "piece = (hole, lit)" by (cases piece)
  from Cons.prems(1) piece have "\<not> touches m lit" by simp
  moreover from Cons.prems(2) piece have "sublist m (hole @ lit @ weave pieces)" by simp
  ultimately have "sublist m hole \<or> sublist m (weave pieces)"
    by (rule separation)
  then show ?case
  proof
    assume "sublist m hole"
    with piece show ?thesis by auto
  next
    assume "sublist m (weave pieces)"
    with Cons.IH Cons.prems(1) show ?thesis by auto
  qed
qed

lemma sublist_embed: "sublist m h \<Longrightarrow> sublist m (a @ h @ b)"
proof -
  assume "sublist m h"
  then obtain p q where "h = p @ m @ q" by (auto simp: sublist_def)
  then have "a @ h @ b = (a @ p) @ m @ (q @ b)" by simp
  then show ?thesis unfolding sublist_def by blast
qed

lemma weave_contains:
  "(hole, lit) \<in> set pieces \<Longrightarrow> sublist m hole \<Longrightarrow> sublist m (weave pieces)"
proof (induction pieces)
  case Nil
  then show ?case by simp
next
  case (Cons piece pieces)
  obtain h l where piece: "piece = (h, l)" by (cases piece)
  show ?case
  proof (cases "(hole, lit) = piece")
    case True
    with piece Cons.prems(2) have "sublist m h" by simp
    then have "sublist m ([] @ h @ (l @ weave pieces))" by (rule sublist_embed)
    with piece show ?thesis by simp
  next
    case False
    with Cons have "sublist m (weave pieces)" by simp
    then have "sublist m ((h @ l) @ weave pieces @ [])" by (rule sublist_embed)
    with piece show ?thesis by simp
  qed
qed

subsection \<open>The Environment Arguments section\<close>

lemma model_card_weave:
  "model_card_header cls env @ model_card_usage algo env org ht =
     weave (model_card_pieces algo cls org env ht)"
  by (simp add: model_card_header_def model_card_usage_def model_card_pieces_def)

lemma model_card_pieces_clean:
  "\<forall>(hole, lit) \<in> set (model_card_pieces algo cls org env ht).
     \<not> touches env_arguments_heading lit"
  by (simp add: model_card_pieces_def touches_def env_arguments_heading_def)

lemma model_card_holes:
  "(\<exists>(hole, lit) \<in> set (model_card_pieces algo cls org env ht). sublist m hole) \<longleftrightarrow>
     sublist m [] \<or> sublist m cls \<or> sublist m env \<or> sublist m algo \<or> sublist m org
       \<or> sublist m ht"
  unfolding model_card_pieces_def by (simp del: sublist_Nil_right) blast

lemma base_card_section:
  "has_env_arguments_section (model_card_header cls env @ model_card_usage algo env org ht)
     \<longleftrightarrow> has_env_arguments_section cls \<or> has_env_arguments_section env
       \<or> has_env_arguments_section algo \<or> has_env_arguments_section org
       \<or> has_env_arguments_section ht"
proof -
  let ?m = env_arguments_heading
  let ?pieces = "model_card_pieces algo cls org env ht"
  have ne: "?m \<noteq> []" by (simp add: env_arguments_heading_def)
  have "sublist ?m (weave ?pieces) \<longleftrightarrow> (\<exists>(hole, lit) \<in> set ?pieces. sublist ?m hole)"
  proof
    assume "sublist ?m (weave ?pieces)"
    with ne model_card_pieces_clean show "\<exists>(hole, lit) \<in> set ?pieces. sublist ?m hole"
      by (rule weave_sublist)
  next
    assume "\<exists>(hole, lit) \<in> set ?pieces. sublist ?m hole"
    then show "sublist ?m (weave ?pieces)"
      by (auto intro: weave_contains)
  qed
  with ne show ?thesis
    by (simp add: has_env_arguments_section_def model_card_weave model_card_holes)
qed

lemma env_arguments_block_section:
  "has_env_arguments_section (base @ model_card_env_arguments et)"
proof -
  have "base @ model_card_env_arguments et =
          (base @ ''\<newline>'') @ env_arguments_heading @ (''\<newline>```python\<newline>'' @ et @ ''\<newline>```\<newline>'')"
    by (simp add: model_card_env_arguments_def env_arguments_heading_def)
  then show ?thesis
    unfolding has_env_arguments_section_def sublist_def by blast
qed

text \<open>
  Claim C2, as amended. When \<open>env_kwargs\<close> is non-empty the returned text has the
  Environment Arguments section. When it is empty, the text has the heading exactly when
  one of the interpolated texts (algorithm class name, environment id, algorithm name,
  organization, rendered hyperparameters) already contains it.
\<close>

theorem env_arguments_section:
  "has_env_arguments_section
     (fst (generate_model_card pformat algo_name algo_class_name organization env_id
             mean_reward std_reward hyperparams env_kwargs))
   \<longleftrightarrow> 0 < length env_kwargs
       \<or> has_env_arguments_section algo_class_name \<or> has_env_arguments_section env_id
       \<or> has_env_arguments_section algo_name \<or> has_env_arguments_section organization
       \<or> has_env_arguments_section (pformat hyperparams)"
proof (cases "0 < length env_kwargs")
  case True
  then show ?thesis
    by (simp add: generate_model_card_def Let_def env_arguments_block_section
             del: append_assoc)
next
  case False
  then show ?thesis
    by (simp add: generate_model_card_def Let_def base_card_section)
qed

theorem env_arguments_section_witness:
  "has_env_arguments_section
     (fst (generate_model_card example_pformat ''ppo'' ''PPO'' ''acme'' ''CartPole-v1''
             (500::int) 0 [(''n_steps'', ''32'')] [(''gravity'', ''9.8'')]))
   \<and> \<not> has_env_arguments_section
     (fst (generate_model_card example_pformat ''ppo'' ''PPO'' ''acme'' ''CartPole-v1''
             (500::int) 0 [(''n_steps'', ''32'')] []))"
proof -
  have clean: "\<not> has_env_arguments_section s" if "CHR ''#'' \<notin> set s" for s
  proof
    assume "has_env_arguments_section s"
    then have "set env_arguments_heading \<subseteq> set s"
      unfolding has_env_arguments_section_def by (rule set_mono_sublist)
    with that show False by (simp add: env_arguments_heading_def)
  qed
  have "\<not> has_env_arguments_section ''PPO''" "\<not> has_env_arguments_section ''CartPole-v1''"
    "\<not> has_env_arguments_section ''ppo''" "\<not> has_env_arguments_section ''acme''"
    "\<not> has_env_arguments_section (example_pformat [(''n_steps'', ''32'')])"
    by (rule clean, simp add: example_pformat_def)+
  then show ?thesis
    using env_arguments_section [of example_pformat "''ppo''" "''PPO''" "''acme''"
              "''CartPole-v1''" "500::int" 0 "[(''n_steps'', ''32'')]" "[(''gravity'', ''9.8'')]"]
          env_arguments_section [of example_pformat "''ppo''" "''PPO''" "''acme''"
              "''CartPole-v1''" "500::int" 0 "[(''n_steps'', ''32'')]" "[]"]
    by simp
qed

text \<open>
  The claim as stated fails: with an empty \<open>env_kwargs\<close> mapping and an environment id
  that carries the heading on a line of its own, the card has the heading line.
\<close>

theorem env_arguments_section_counterexample:
  "\<not> (has_env_arguments_section
        (fst (generate_model_card example_pformat ''ppo'' ''PPO'' ''acme''
                ''CartPole-v1\<newline># Environment Arguments\<newline>''
                (500::int) 0 [(''n_steps'', ''32'')] []))
      \<longleftrightarrow> 0 < length ([] :: string dict))"
proof -
  let ?env = "''CartPole-v1\<newline># Environment Arguments\<newline>''"
  have "?env = ''CartPole-v1\<newline>'' @ env_arguments_heading @ ''\<newline>''"
    by (simp add: env_arguments_heading_def)
  then have "has_env_arguments_section ?env"
    unfolding has_env_arguments_section_def sublist_def by blast
  then have "has_env_arguments_section
        (model_card_header ''PPO'' ?env @
         model_card_usage ''ppo'' ?env ''acme'' (example_pformat [(''n_steps'', ''32'')]))"
    by (simp only: base_card_section simp_thms)
  then show ?thesis
    by (simp add: generate_model_card_def Let_def)
qed

section \<open>Properties of the packaging pipeline\<close>

subsection \<open>Events and wrapper state of the steps\<close>

lemma run_steps_Cons: "run_steps (s # ss) = seq s (run_steps ss)"
  by (rule ext) (simp add: seq_def)

lemma conformsI:
  assumes "\<And>w. \<exists>removed es.
        trace (snd (s w)) = trace w @ es \<and> prefix es (f (vec_norm w) removed) \<and>
        (fst (s w) = None \<longrightarrow>
           es = f (vec_norm w) removed \<and> vec_norm (snd (s w)) = G (vec_norm w)) \<and>
        (vec_norm w = None \<longrightarrow> vec_norm (snd (s w)) = None)"
  shows "conforms s f G"
  unfolding conforms_def using assms by blast

text \<open>A step with fixed events, followed by any step.\<close>

lemma conforms_seq_det:
  assumes c1: "conforms s1 (\<lambda>vn removed. a vn) G1" and c2: "conforms s2 f2 G2"
    and G1: "G1 None = None"
  shows "conforms (seq s1 s2) (\<lambda>vn removed. a vn @ f2 (G1 vn) removed) (\<lambda>vn. G2 (G1 vn))"
proof (rule conformsI)
  fix w :: "('a, 'b) world"
  let ?vn = "vec_norm w"
  from c1 obtain es1 where t1: "trace (snd (s1 w)) = trace w @ es1"
    and p1: "prefix es1 (a ?vn)"
    and ok1: "fst (s1 w) = None \<longrightarrow> es1 = a ?vn \<and> vec_norm (snd (s1 w)) = G1 ?vn"
    and n1: "?vn = None \<longrightarrow> vec_norm (snd (s1 w)) = None"
    unfolding conforms_def by blast
  obtain r1 w1 where s1: "s1 w = (r1, w1)" by (cases "s1 w")
  show "\<exists>removed es.
          trace (snd (seq s1 s2 w)) = trace w @ es \<and>
          prefix es (a ?vn @ f2 (G1 ?vn) removed) \<and>
          (fst (seq s1 s2 w) = None \<longrightarrow>
             es = a ?vn @ f2 (G1 ?vn) removed \<and>
             vec_norm (snd (seq s1 s2 w)) = G2 (G1 ?vn)) \<and>
          (?vn = None \<longrightarrow> vec_norm (snd (seq s1 s2 w)) = None)"
  proof (cases r1)
    case (Some e)
    have res: "seq s1 s2 w = (Some e, w1)" using s1 Some by (simp add: seq_def)
    have "trace (snd (seq s1 s2 w)) = trace w @ es1" using res t1 s1 by simp
    moreover have "prefix es1 (a ?vn @ f2 (G1 ?vn) [])" using p1 by (rule prefix_prefix)
    moreover have "?vn = None \<longrightarrow> vec_norm (snd (seq s1 s2 w)) = None"
      using n1 res s1 by simp
    ultimately show ?thesis using res
      by (intro exI [of _ "[]"] exI [of _ es1]) simp_all
  next
    case None
    with ok1 s1 have e1: "es1 = a ?vn" and v1: "vec_norm w1 = G1 ?vn" by simp_all
    from c2 obtain removed es2 where t2: "trace (snd (s2 w1)) = trace w1 @ es2"
      and p2: "prefix es2 (f2 (vec_norm w1) removed)"
      and ok2: "fst (s2 w1) = None \<longrightarrow>
          es2 = f2 (vec_norm w1) removed \<and> vec_norm (snd (s2 w1)) = G2 (vec_norm w1)"
      and n2: "vec_norm w1 = None \<longrightarrow> vec_norm (snd (s2 w1)) = None"
      unfolding conforms_def by blast
    have res: "seq s1 s2 w = s2 w1" using s1 None by (simp add: seq_def)
    have "trace (snd (seq s1 s2 w)) = trace w @ (a ?vn @ es2)"
      using res t1 t2 s1 e1 by simp
    moreover have "prefix (a ?vn @ es2) (a ?vn @ f2 (G1 ?vn) removed)"
      using p2 v1 by simp
    moreover have "fst (seq s1 s2 w) = None \<longrightarrow>
        a ?vn @ es2 = a ?vn @ f2 (G1 ?vn) removed \<and>
        vec_norm (snd (seq s1 s2 w)) = G2 (G1 ?vn)"
      using ok2 res v1 by simp
    moreover have "?vn = None \<longrightarrow> vec_norm (snd (seq s1 s2 w)) = None"
      using n2 v1 G1 res by simp
    ultimately show ?thesis
      by (intro exI [of _ removed] exI [of _ "a ?vn @ es2"]) simp_all
  qed
qed

text \<open>Any step that keeps the wrapper, followed by a step with fixed events.\<close>

lemma conforms_seq_then_det:
  assumes c1: "conforms s1 f1 (\<lambda>vn. vn)" and c2: "conforms s2 (\<lambda>vn removed. b vn) G2"
  shows "conforms (seq s1 s2) (\<lambda>vn removed. f1 vn removed @ b vn) G2"
proof (rule conformsI)
  fix w :: "('a, 'b) world"
  let ?vn = "vec_norm w"
  from c1 obtain removed es1 where t1: "trace (snd (s1 w)) = trace w @ es1"
    and p1: "prefix es1 (f1 ?vn removed)"
    and ok1: "fst (s1 w) = None \<longrightarrow>
        es1 = f1 ?vn removed \<and> vec_norm (snd (s1 w)) = ?vn"
    and n1: "?vn = None \<longrightarrow> vec_norm (snd (s1 w)) = None"
    unfolding conforms_def by blast
  obtain r1 w1 where s1: "s1 w = (r1, w1)" by (cases "s1 w")
  show "\<exists>removed es.
          trace (snd (seq s1 s2 w)) = trace w @ es \<and>
          prefix es (f1 ?vn removed @ b ?vn) \<and>
          (fst (seq s1 s2 w) = None \<longrightarrow>
             es = f1 ?vn removed @ b ?vn \<and> vec_norm (snd (seq s1 s2 w)) = G2 ?vn) \<and>
          (?vn = None \<longrightarrow> vec_norm (snd (seq s1 s2 w)) = None)"
  proof (cases r1)
    case (Some e)
    have res: "seq s1 s2 w = (Some e, w1)" using s1 Some by (simp add: seq_def)
    have "trace (snd (seq s1 s2 w)) = trace w @ es1" using res t1 s1 by simp
    moreover have "prefix es1 (f1 ?vn removed @ b ?vn)" using p1 by (rule prefix_prefix)
    moreover have "?vn = None \<longrightarrow> vec_norm (snd (seq s1 s2 w)) = None"
      using n1 res s1 by simp
    ultimately show ?thesis using res
      by (intro exI [of _ removed] exI [of _ es1]) simp_all
  next
    case None
    with ok1 s1 have e1: "es1 = f1 ?vn removed" and v1: "vec_norm w1 = ?vn" by simp_all
    from c2 obtain es2 where t2: "trace (snd (s2 w1)) = trace w1 @ es2"
      and p2: "prefix es2 (b (vec_norm w1))"
      and ok2: "fst (s2 w1) = None \<longrightarrow>
          es2 = b (vec_norm w1) \<and> vec_norm (snd (s2 w1)) = G2 (vec_norm w1)"
      and n2: "vec_norm w1 = None \<longrightarrow> vec_norm (snd (s2 w1)) = None"
      unfolding conforms_def by blast
    have res: "seq s1 s2 w = s2 w1" using s1 None by (simp add: seq_def)
    have "trace (snd (seq s1 s2 w)) = trace w @ (f1 ?vn removed @ es2)"
      using res t1 t2 s1 e1 by simp
    moreover have "prefix (f1 ?vn removed @ es2) (f1 ?vn removed @ b ?vn)"
      using p2 v1 by simp
    moreover have "fst (seq s1 s2 w) = None \<longrightarrow>
        f1 ?vn removed @ es2 = f1 ?vn removed @ b ?vn \<and>
        vec_norm (snd (seq s1 s2 w)) = G2 ?vn"
      using ok2 res v1 by simp
    moreover have "?vn = None \<longrightarrow> vec_norm (snd (seq s1 s2 w)) = None"
      using n2 v1 res by simp
    ultimately show ?thesis
      by (intro exI [of _ removed] exI [of _ "f1 ?vn removed @ es2"]) simp_all
  qed
qed

lemma conforms_done: "conforms (run_steps []) (\<lambda>vn removed. []) (\<lambda>vn. vn)"
  by (simp add: conforms_def)

lemma conforms_eq:
  "conforms s f G \<Longrightarrow> (\<And>vn removed. f vn removed = f' vn removed) \<Longrightarrow>
   (\<And>vn. G vn = G' vn) \<Longrightarrow> conforms s f' G'"
  unfolding conforms_def by simp

lemma trace_write_file [simp]: "trace (write_file p c w) = trace w"
  and vec_norm_write_file [simp]: "vec_norm (write_file p c w) = vec_norm w"
  by (simp_all add: write_file_def)

lemma trace_embed_metadata [simp]: "trace (embed_metadata p md w) = trace w"
  and vec_norm_embed_metadata [simp]: "vec_norm (embed_metadata p md w) = vec_norm w"
  by (simp_all add: embed_metadata_def split: option.splits content.splits)

lemma conforms_lib_call:
  assumes "\<And>w. trace (effect w) = trace w" "\<And>w. vec_norm (effect w) = vec_norm w"
  shows "conforms (lib_call lib ev effect) (\<lambda>vn removed. [ev]) (\<lambda>vn. vn)"
  unfolding conforms_def by (simp add: lib_call_def assms)

lemma conforms_log_event: "conforms (log_event ev) (\<lambda>vn removed. [ev]) (\<lambda>vn. vn)"
  unfolding conforms_def by (simp add: log_event_def)

lemma copy_file_cases:
  obtains e where "copy_file src dst w = (Some e, w)"
  | c where "copy_file src dst w =
               (None, write_file dst c (w\<lparr>trace := trace w @ [CopyFile src dst]\<rparr>))"
proof (cases "map_of (files w) src")
  case None
  then show ?thesis using that(1) by (simp add: copy_file_def)
next
  case (Some c)
  then show ?thesis using that by (cases c) (simp_all add: copy_file_def)
qed

lemma conforms_copy_file:
  "conforms (copy_file src dst) (\<lambda>vn removed. [CopyFile src dst]) (\<lambda>vn. vn)"
proof (rule conformsI)
  fix w :: "('a, 'b) world"
  show "\<exists>removed es.
          trace (snd (copy_file src dst w)) = trace w @ es \<and>
          prefix es [CopyFile src dst] \<and>
          (fst (copy_file src dst w) = None \<longrightarrow>
             es = [CopyFile src dst] \<and> vec_norm (snd (copy_file src dst w)) = vec_norm w) \<and>
          (vec_norm w = None \<longrightarrow> vec_norm (snd (copy_file src dst w)) = None)"
    by (cases rule: copy_file_cases [of src dst w]) simp_all
qed

lemma conforms_unzip_model:
  "conforms (unzip_model lib repo_local_path model_name)
     (\<lambda>vn removed. [ExtractAll (path_join repo_local_path (model_name @ ''.zip''))
               (path_join repo_local_path model_name)]) (\<lambda>vn. vn)"
  unfolding conforms_def
  by (simp add: unzip_model_def lib_call_def Let_def)

lemma conforms_archive_metrics:
  "conforms (archive_metrics lib log_path repo_local_path)
     (\<lambda>vn removed. [WriteArchive (path_join repo_local_path ''train_eval_metrics.zip'')])
     (\<lambda>vn. vn)"
  unfolding conforms_def
  by (simp add: archive_metrics_def lib_call_def Let_def)

lemma conforms_clone_repo:
  "conforms (clone_repo lib repo_id repo_local_path)
     (\<lambda>vn removed. [CreateRepo repo_id, CloneRepo repo_local_path, GitPull, LfsTrack])
     (\<lambda>vn. vn)"
  unfolding clone_repo_def run_steps_Cons
  by (rule conforms_eq) ((rule conforms_seq_det conforms_lib_call conforms_done | simp)+)

lemma conforms_save_model:
  "conforms (save_model lib repo_local_path model_name)
     (\<lambda>vn removed. [ModelSave (path_join repo_local_path model_name)]) (\<lambda>vn. vn)"
  unfolding save_model_def by (rule conforms_lib_call) simp_all

lemma conforms_copy_config:
  "conforms (copy_config lib log_path env_id repo_local_path env_kwargs)
     (\<lambda>vn removed.
        [CopyFile (path_join (path_join log_path env_id) ''args.yml'')
           (path_join repo_local_path ''args.yml''),
         CopyFile (path_join (path_join log_path env_id) ''config.yml'')
           (path_join repo_local_path ''config.yml''),
         DumpEnvKwargs (path_join repo_local_path ''env_kwargs.yml'')]) (\<lambda>vn. vn)"
  unfolding copy_config_def Let_def run_steps_Cons
  by (rule conforms_eq) ((rule conforms_seq_det conforms_lib_call conforms_copy_file conforms_done | simp)+)

lemma conforms_save_model_card:
  "conforms (save_model_card lib repo_dir text metadata)
     (\<lambda>vn removed. [WriteReadme (path_join repo_dir ''README.md''),
              MetadataSave (path_join repo_dir ''README.md'')]) (\<lambda>vn. vn)"
  unfolding save_model_card_def Let_def run_steps_Cons
  by (rule conforms_eq) ((rule conforms_seq_det conforms_lib_call conforms_done | simp)+)

lemma conforms_save_normalization:
  "conforms (save_normalization lib repo_local_path)
     (\<lambda>vn removed. case vn of None \<Rightarrow> []
             | Some _ \<Rightarrow> [VecNormalizeSave (path_join repo_local_path ''vec_normalize.pkl''),
                          SetTraining False, SetNormReward False])
     test_mode"
  unfolding conforms_def
  by (auto simp: save_normalization_def lib_call_def set_training_def set_norm_reward_def
        test_mode_def split: option.splits)

lemma conforms_evaluation_step:
  "conforms (evaluation_step lib is_deterministic)
     (\<lambda>vn removed. [EvaluateAgent vn is_deterministic]) (\<lambda>vn. vn)"
  unfolding conforms_def
  by (simp add: evaluation_step_def evaluate_agent_def Let_def)

lemma optional_unlink_trace:
  fixes w :: "('r, 'v) world"
  shows "\<exists>ps. trace (snd (if c then unlink p w else (None, w))) = trace w @ map Unlink ps
            \<and> vec_norm (snd (if c then unlink p w else (None, w))) = vec_norm w"
proof (cases "c \<and> fst (unlink p w) = None")
  case True
  then have "trace (snd (unlink p w)) = trace w @ map Unlink [p]"
    and "vec_norm (snd (unlink p w)) = vec_norm w"
    by (auto simp: unlink_def split: option.splits content.splits)
  with True show ?thesis by (intro exI [of _ "[p]"]) simp
next
  case False
  then have "trace (snd (if c then unlink p w else (None, w))) = trace w @ map Unlink []"
    and "vec_norm (snd (if c then unlink p w else (None, w))) = vec_norm w"
    by (auto simp: unlink_def split: option.splits content.splits)
  then show ?thesis by (intro exI [of _ "[]"]) simp
qed

lemma cleanup_trace:
  fixes w :: "('r, 'v) world"
  shows "\<exists>ps. trace (snd (cleanup_replay_files w)) = trace w @ map Unlink ps
            \<and> vec_norm (snd (cleanup_replay_files w)) = vec_norm w"
proof -
  let ?first = "if is_file (files w) ''test.mp4'' then unlink ''test.mp4'' w else (None, w)"
  obtain ps1 where t1: "trace (snd ?first) = trace w @ map Unlink ps1"
    and v1: "vec_norm (snd ?first) = vec_norm w"
    using optional_unlink_trace [of "is_file (files w) ''test.mp4''" "''test.mp4''" w] by blast
  obtain r1 w1 where first: "?first = (r1, w1)" by (cases ?first)
  show ?thesis
  proof (cases r1)
    case (Some e)
    with first have "cleanup_replay_files w = (Some e, w1)"
      by (simp add: cleanup_replay_files_def Let_def)
    with t1 v1 first show ?thesis by (intro exI [of _ ps1]) simp
  next
    case None
    let ?json = "glob_cwd ''.meta.json'' (files w1)"
    let ?second = "if 0 < length ?json then unlink (?json ! 0) w1 else (None, w1)"
    from None first have res: "cleanup_replay_files w = ?second"
      by (simp add: cleanup_replay_files_def Let_def)
    obtain ps2 where t2: "trace (snd ?second) = trace w1 @ map Unlink ps2"
      and v2: "vec_norm (snd ?second) = vec_norm w1"
      using optional_unlink_trace [of "0 < length ?json" "?json ! 0" w1] by blast
    from t1 v1 t2 v2 first res show ?thesis
      by (intro exI [of _ "ps1 @ ps2"]) simp
  qed
qed

lemma conforms_cleanup:
  "conforms cleanup_replay_files (\<lambda>vn removed. map Unlink removed) (\<lambda>vn. vn)"
proof (rule conformsI)
  fix w :: "('a, 'b) world"
  obtain ps where "trace (snd (cleanup_replay_files w)) = trace w @ map Unlink ps"
    and "vec_norm (snd (cleanup_replay_files w)) = vec_norm w"
    using cleanup_trace by blast
  then show "\<exists>removed es.
          trace (snd (cleanup_replay_files w)) = trace w @ es \<and>
          prefix es (map Unlink removed) \<and>
          (fst (cleanup_replay_files w) = None \<longrightarrow>
             es = map Unlink removed \<and>
             vec_norm (snd (cleanup_replay_files w)) = vec_norm w) \<and>
          (vec_norm w = None \<longrightarrow> vec_norm (snd (cleanup_replay_files w)) = None)"
    by (intro exI [of _ ps] exI [of _ "map Unlink ps"]) simp
qed

lemma conforms_generate_video_step:
  "conforms (generate_video_step lib generate_video is_deterministic)
     (\<lambda>vn removed. if generate_video
              then GenerateReplay vn is_deterministic # map Unlink removed else [])
     (\<lambda>vn. vn)"
proof (cases generate_video)
  case False
  then show ?thesis
    unfolding conforms_def by (simp add: generate_video_step_def)
next
  case True
  show ?thesis
  proof (rule conformsI)
    fix w :: "('a, 'b) world"
    let ?replay = "lib_call lib (GenerateReplay (vec_norm w) is_deterministic)
        (\<lambda>w'. w'\<lparr>files := dict_update (files w') (replay_leftovers lib)\<rparr>)"
    let ?both = "seq ?replay (seq cleanup_replay_files (run_steps []))"
    let ?step = "generate_video_step lib generate_video is_deterministic"
    have tidy: "conforms (seq cleanup_replay_files (run_steps []))
            (\<lambda>vn removed. map Unlink removed @ []) (\<lambda>vn. vn)"
      by (rule conforms_seq_then_det [OF conforms_cleanup conforms_done])
    have "conforms ?both
            (\<lambda>vn removed. [GenerateReplay (vec_norm w) is_deterministic]
                @ (map Unlink removed @ []))
            (\<lambda>vn. vn)"
      by (rule conforms_seq_det [OF conforms_lib_call tidy]) simp_all
    then obtain removed es where
      rest: "trace (snd (?both w)) = trace w @ es"
        "prefix es (GenerateReplay (vec_norm w) is_deterministic # map Unlink removed)"
        "fst (?both w) = None \<longrightarrow>
           es = GenerateReplay (vec_norm w) is_deterministic # map Unlink removed \<and>
           vec_norm (snd (?both w)) = vec_norm w"
        "vec_norm w = None \<longrightarrow> vec_norm (snd (?both w)) = None"
      unfolding conforms_def by fastforce
    have same: "?step w = ?both w"
      using True by (simp add: generate_video_step_def run_steps_Cons)
    show "\<exists>removed es. trace (snd (?step w)) = trace w @ es \<and>
           prefix es (if generate_video
              then GenerateReplay (vec_norm w) is_deterministic # map Unlink removed else []) \<and>
           (fst (?step w) = None \<longrightarrow>
              es = (if generate_video
                then GenerateReplay (vec_norm w) is_deterministic # map Unlink removed else []) \<and>
              vec_norm (snd (?step w)) = vec_norm w) \<and>
           (vec_norm w = None \<longrightarrow> vec_norm (snd (?step w)) = None)"
      using rest True unfolding same by (intro exI [of _ removed] exI [of _ es]) simp_all
  qed
qed

lemma run_steps_append:
  "run_steps (xs @ ys) w =
     (case run_steps xs w of (None, w') \<Rightarrow> run_steps ys w' | (Some e, w') \<Rightarrow> (Some e, w'))"
  by (induction xs arbitrary: w) (auto split: prod.splits option.splits)

lemma package_to_hub_steps:
  assumes "unpack_repo_id repo_id = Some (organization, repo_name)"
  shows "package_to_hub lib pformat model_name algo_name algo_class_name log_path
           hyperparams env_kwargs env_id repo_id commit_message is_deterministic
           local_repo_path generate_video w0 =
         run_steps
           [clone_repo lib repo_id (path_join local_repo_path repo_name),
            save_model lib (path_join local_repo_path repo_name) model_name,
            save_normalization lib (path_join local_repo_path repo_name),
            unzip_model lib (path_join local_repo_path repo_name) model_name,
            copy_config lib log_path env_id (path_join local_repo_path repo_name) env_kwargs,
            archive_metrics lib log_path (path_join local_repo_path repo_name),
            evaluation_step lib is_deterministic,
            generate_video_step lib generate_video is_deterministic,
            log_event (GenerateModelCard (fst (eval_result lib)) (snd (eval_result lib))),
            save_model_card lib (path_join local_repo_path repo_name)
              (fst (generate_model_card pformat algo_name algo_class_name organization env_id
                      (fst (eval_result lib)) (snd (eval_result lib)) hyperparams env_kwargs))
              (snd (generate_model_card pformat algo_name algo_class_name organization env_id
                      (fst (eval_result lib)) (snd (eval_result lib)) hyperparams env_kwargs)),
            lib_call lib (PushToHub commit_message) id] w0"
proof -
  let ?dir = "path_join local_repo_path repo_name"
  let ?card = "\<lambda>m s. generate_model_card pformat algo_name algo_class_name organization env_id
                      m s hyperparams env_kwargs"
  define first where "first =
     run_steps [clone_repo lib repo_id ?dir, save_model lib ?dir model_name,
        save_normalization lib ?dir, unzip_model lib ?dir model_name,
        copy_config lib log_path env_id ?dir env_kwargs,
        archive_metrics lib log_path ?dir]"
  define final where "final = (\<lambda>m s text metadata.
     run_steps [log_event (GenerateModelCard m s), save_model_card lib ?dir text metadata,
        lib_call lib (PushToHub commit_message) id])"
  define m where "m = fst (eval_result lib)"
  define s where "s = snd (eval_result lib)"
  have rewards: "eval_result lib = (m, s)" by (simp add: m_def s_def)
  have pkg: "package_to_hub lib pformat model_name algo_name algo_class_name log_path
           hyperparams env_kwargs env_id repo_id commit_message is_deterministic
           local_repo_path generate_video w0 =
      (case first w0 of
         (Some e, w1) \<Rightarrow> (Some e, w1)
       | (None, w1) \<Rightarrow>
          (case evaluate_agent lib is_deterministic w1 of
             (Inl e, w2) \<Rightarrow> (Some e, w2)
           | (Inr (mean_reward, std_reward), w2) \<Rightarrow>
               (case generate_video_step lib generate_video is_deterministic w2 of
                  (Some e, w3) \<Rightarrow> (Some e, w3)
                | (None, w3) \<Rightarrow>
                    (case ?card mean_reward std_reward of
                       (text, metadata) \<Rightarrow> final mean_reward std_reward text metadata w3))))"
    unfolding package_to_hub_def first_def final_def using assms by (simp add: Let_def)
  have tail: "(case evaluate_agent lib is_deterministic w1 of
             (Inl e, w2) \<Rightarrow> (Some e, w2)
           | (Inr (mean_reward, std_reward), w2) \<Rightarrow>
               (case generate_video_step lib generate_video is_deterministic w2 of
                  (Some e, w3) \<Rightarrow> (Some e, w3)
                | (None, w3) \<Rightarrow>
                    (case ?card mean_reward std_reward of
                       (text, metadata) \<Rightarrow> final mean_reward std_reward text metadata w3)))
        = seq (evaluation_step lib is_deterministic)
            (seq (generate_video_step lib generate_video is_deterministic)
               (final m s (fst (?card m s)) (snd (?card m s)))) w1" for w1
    by (simp add: seq_def evaluation_step_def evaluate_agent_def Let_def rewards split_beta
             split: option.splits)
  have "run_steps
           ([clone_repo lib repo_id ?dir, save_model lib ?dir model_name,
             save_normalization lib ?dir, unzip_model lib ?dir model_name,
             copy_config lib log_path env_id ?dir env_kwargs,
             archive_metrics lib log_path ?dir] @
            [evaluation_step lib is_deterministic,
             generate_video_step lib generate_video is_deterministic,
             log_event (GenerateModelCard m s),
             save_model_card lib ?dir (fst (?card m s)) (snd (?card m s)),
             lib_call lib (PushToHub commit_message) id]) w0 =
        (case first w0 of
           (None, w1) \<Rightarrow>
             seq (evaluation_step lib is_deterministic)
               (seq (generate_video_step lib generate_video is_deterministic)
                  (final m s (fst (?card m s)) (snd (?card m s)))) w1
         | (Some e, w1) \<Rightarrow> (Some e, w1))"
    unfolding run_steps_append first_def final_def
    by (simp only: run_steps_Cons [of "evaluation_step lib is_deterministic"]
          run_steps_Cons [of "generate_video_step lib generate_video is_deterministic"])
  then show ?thesis
    unfolding pkg tail m_def s_def
    by (simp split: prod.splits option.splits)
qed

lemma conforms_pipeline:
  "conforms
     (run_steps
           [clone_repo lib repo_id repo_local_path,
            save_model lib repo_local_path model_name,
            save_normalization lib repo_local_path,
            unzip_model lib repo_local_path model_name,
            copy_config lib log_path env_id repo_local_path env_kwargs,
            archive_metrics lib log_path repo_local_path,
            evaluation_step lib is_deterministic,
            generate_video_step lib generate_video is_deterministic,
            log_event (GenerateModelCard (fst rewards) (snd rewards)),
            save_model_card lib repo_local_path text metadata,
            lib_call lib (PushToHub commit_message) id])
     (\<lambda>vn removed.
        pipeline_events repo_id repo_local_path model_name log_path env_id commit_message
          is_deterministic generate_video vn rewards removed)
     test_mode"
  unfolding run_steps_Cons
  by (rule conforms_eq)
     ((rule conforms_seq_then_det [OF conforms_generate_video_step]
            conforms_seq_det conforms_clone_repo conforms_save_model
            conforms_save_normalization conforms_unzip_model conforms_copy_config
            conforms_archive_metrics conforms_evaluation_step
            conforms_log_event conforms_save_model_card conforms_lib_call conforms_done
       | simp add: pipeline_events_def test_mode_def)+)

subsection \<open>The events of a run\<close>

lemma package_to_hub_no_repo:
  assumes "unpack_repo_id repo_id = None"
  shows "package_to_hub lib pformat model_name algo_name algo_class_name log_path
           hyperparams env_kwargs env_id repo_id commit_message is_deterministic
           local_repo_path generate_video w0 = (Some ValueError, w0)"
  using assms by (simp add: package_to_hub_def)

lemma package_to_hub_trace:
  assumes "unpack_repo_id repo_id = Some (organization, repo_name)"
    and "package_to_hub lib pformat model_name algo_name algo_class_name log_path
           hyperparams env_kwargs env_id repo_id commit_message is_deterministic
           local_repo_path generate_video w0 = (r, w)"
  obtains removed es where "trace w = trace w0 @ es"
    and "prefix es
           (pipeline_events repo_id (path_join local_repo_path repo_name) model_name log_path
              env_id commit_message is_deterministic generate_video (vec_norm w0)
              (eval_result lib) removed)"
    and "r = None \<longrightarrow>
           es = pipeline_events repo_id (path_join local_repo_path repo_name) model_name
                  log_path env_id commit_message is_deterministic generate_video (vec_norm w0)
                  (eval_result lib) removed
           \<and> vec_norm w = test_mode (vec_norm w0)"
    and "vec_norm w0 = None \<longrightarrow> vec_norm w = None"
proof -
  let ?dir = "path_join local_repo_path repo_name"
  let ?card = "generate_model_card pformat algo_name algo_class_name organization env_id
                 (fst (eval_result lib)) (snd (eval_result lib)) hyperparams env_kwargs"
  let ?run = "run_steps
           [clone_repo lib repo_id ?dir,
            save_model lib ?dir model_name,
            save_normalization lib ?dir,
            unzip_model lib ?dir model_name,
            copy_config lib log_path env_id ?dir env_kwargs,
            archive_metrics lib log_path ?dir,
            evaluation_step lib is_deterministic,
            generate_video_step lib generate_video is_deterministic,
            log_event (GenerateModelCard (fst (eval_result lib)) (snd (eval_result lib))),
            save_model_card lib ?dir (fst ?card) (snd ?card),
            lib_call lib (PushToHub commit_message) id]"
  have run: "?run w0 = (r, w)"
    unfolding package_to_hub_steps [OF assms(1), symmetric] by (rule assms(2))
  have "conforms ?run
     (\<lambda>vn removed.
        pipeline_events repo_id ?dir model_name log_path env_id commit_message
          is_deterministic generate_video vn (eval_result lib) removed)
     test_mode"
    by (rule conforms_pipeline)
  then obtain removed es where "trace (snd (?run w0)) = trace w0 @ es"
    and "prefix es (pipeline_events repo_id ?dir model_name log_path env_id commit_message
          is_deterministic generate_video (vec_norm w0) (eval_result lib) removed)"
    and "fst (?run w0) = None \<longrightarrow>
           es = pipeline_events repo_id ?dir model_name log_path env_id commit_message
                  is_deterministic generate_video (vec_norm w0) (eval_result lib) removed
           \<and> vec_norm (snd (?run w0)) = test_mode (vec_norm w0)"
    and "vec_norm w0 = None \<longrightarrow> vec_norm (snd (?run w0)) = None"
    unfolding conforms_def by blast
  then show ?thesis
    unfolding run by (intro that [of es removed]) simp_all
qed

lemma before_prefix: "prefix es full \<Longrightarrow> before P Q full \<Longrightarrow> before P Q es"
proof (induction es arbitrary: full)
  case Nil
  show ?case by simp
next
  case (Cons e es)
  from Cons.prems(1) obtain rest where full: "full = e # rest" and "prefix es rest"
    by (cases full) auto
  with Cons show ?case by (auto split: if_splits)
qed

lemma before_iff:
  "before P Q tr \<longleftrightarrow> (\<forall>ys e zs. tr = ys @ e # zs \<and> Q e \<longrightarrow> (\<exists>p \<in> set ys. P p))"
proof (induction tr)
  case Nil
  show ?case by simp
next
  case (Cons x xs)
  show ?case
  proof (cases "Q x")
    case True
    then have "\<not> (\<forall>ys e zs. x # xs = ys @ e # zs \<and> Q e \<longrightarrow> (\<exists>p \<in> set ys. P p))"
      by (auto intro: exI [of _ "[]"])
    with True show ?thesis by simp
  next
    case False
    show ?thesis
    proof (cases "P x")
      case True
      have "\<exists>p \<in> set ys. P p" if "x # xs = ys @ e # zs" "Q e" for ys e zs
        using that True False by (cases ys) auto
      with True False show ?thesis by auto
    next
      case nP: False
      have "(\<forall>ys e zs. x # xs = ys @ e # zs \<and> Q e \<longrightarrow> (\<exists>p \<in> set ys. P p)) \<longleftrightarrow>
            (\<forall>ys e zs. xs = ys @ e # zs \<and> Q e \<longrightarrow> (\<exists>p \<in> set ys. P p))"
      proof
        assume L: "\<forall>ys e zs. x # xs = ys @ e # zs \<and> Q e \<longrightarrow> (\<exists>p \<in> set ys. P p)"
        show "\<forall>ys e zs. xs = ys @ e # zs \<and> Q e \<longrightarrow> (\<exists>p \<in> set ys. P p)"
        proof (intro allI impI)
          fix ys e zs assume "xs = ys @ e # zs \<and> Q e"
          then have "x # xs = (x # ys) @ e # zs \<and> Q e" by simp
          with L have "\<exists>p \<in> set (x # ys). P p" by blast
          with nP show "\<exists>p \<in> set ys. P p" by simp
        qed
      next
        assume R: "\<forall>ys e zs. xs = ys @ e # zs \<and> Q e \<longrightarrow> (\<exists>p \<in> set ys. P p)"
        show "\<forall>ys e zs. x # xs = ys @ e # zs \<and> Q e \<longrightarrow> (\<exists>p \<in> set ys. P p)"
        proof (intro allI impI)
          fix ys e zs assume A: "x # xs = ys @ e # zs \<and> Q e"
          show "\<exists>p \<in> set ys. P p"
          proof (cases ys)
            case Nil
            with A False show ?thesis by simp
          next
            case (Cons y ys')
            with A have "xs = ys' @ e # zs \<and> Q e" by simp
            with R have "\<exists>p \<in> set ys'. P p" by blast
            with Cons show ?thesis by simp
          qed
        qed
      qed
      with False nP Cons.IH show ?thesis by simp
    qed
  qed
qed



subsection \<open>The normalization wrapper\<close>

lemma save_normalization_present:
  assumes "vec_norm w1 = Some vn" and "save_normalization lib dir w1 = (None, w2)"
  shows "map_of (files w2) (path_join dir ''vec_normalize.pkl'') = Some (NormalizationStats vn)"
    and "vec_norm w2 = Some (vn\<lparr>training := False, norm_reward := False\<rparr>)"
  using assms
  by (auto simp: save_normalization_def lib_call_def set_training_def set_norm_reward_def
        write_file_def update_conv' split: if_splits)

lemma save_normalization_absent:
  "vec_norm w1 = None \<Longrightarrow> save_normalization lib dir w1 = (None, w1)"
  by (simp add: save_normalization_def)

lemma pipeline_events_present:
  fixes lib :: "('r, 'v) library"
  defines "full \<equiv> \<lambda>repo_id dir model_name log_path env_id commit_message is_deterministic
      generate_video vn rewards removed.
      (pipeline_events repo_id dir model_name log_path env_id commit_message is_deterministic
         generate_video (Some vn) rewards removed :: 'r event list)"
  shows "before is_stats_save is_attribute_set
           (full repo_id dir model_name log_path env_id commit_message is_deterministic
              generate_video vn rewards removed)"
    and "before (\<lambda>e. e = SetTraining False) is_evaluation
           (full repo_id dir model_name log_path env_id commit_message is_deterministic
              generate_video vn rewards removed)"
    and "before (\<lambda>e. e = SetNormReward False) is_evaluation
           (full repo_id dir model_name log_path env_id commit_message is_deterministic
              generate_video vn rewards removed)"
    and "e \<in> set (full repo_id dir model_name log_path env_id commit_message is_deterministic
              generate_video vn rewards removed) \<Longrightarrow> is_attribute_set e \<Longrightarrow>
         e = SetTraining False \<or> e = SetNormReward False"
    and "EvaluateAgent wrapper d \<in> set (full repo_id dir model_name log_path env_id
              commit_message is_deterministic generate_video vn rewards removed) \<Longrightarrow>
         wrapper = Some (vn\<lparr>training := False, norm_reward := False\<rparr>)"
    and "\<exists>e \<in> set (full repo_id dir model_name log_path env_id commit_message is_deterministic
              generate_video vn rewards removed). is_stats_save e"
  unfolding full_def
       apply (simp add: pipeline_events_def is_stats_save_def is_attribute_set_def)
      apply (simp add: pipeline_events_def is_evaluation_def)
     apply (simp add: pipeline_events_def is_evaluation_def)
    apply (auto simp: pipeline_events_def is_attribute_set_def)[1]
   apply (auto simp: pipeline_events_def test_mode_def)[1]
  apply (simp add: pipeline_events_def is_stats_save_def)
  done

lemma pipeline_events_absent:
  "e \<in> set (pipeline_events repo_id dir model_name log_path env_id commit_message
       is_deterministic generate_video None rewards removed) \<Longrightarrow>
   \<not> is_stats_save e \<and> \<not> is_attribute_set e"
  by (auto simp: pipeline_events_def is_stats_save_def is_attribute_set_def)

text \<open>
  Claim C9. When the evaluation environment has a \<open>VecNormalize\<close> wrapper, its
  statistics are saved to \<open>vec_normalize.pkl\<close> first (the file holds the wrapper as it
  was) and only then are \<open>training\<close> and \<open>norm_reward\<close> set to \<open>False\<close>, so the
  evaluation runs with both \<open>False\<close>; without a wrapper no statistics are saved and no
  attribute is set.
\<close>

theorem vec_normalize_handling:
  assumes run: "package_to_hub lib pformat model_name algo_name algo_class_name log_path
           hyperparams env_kwargs env_id repo_id commit_message is_deterministic
           local_repo_path generate_video w0 = (r, w)"
    and fresh: "trace w0 = []"
  shows "(\<forall>vn. vec_norm w0 = Some vn \<longrightarrow>
            before is_stats_save is_attribute_set (trace w)
          \<and> before (\<lambda>e. e = SetTraining False) is_evaluation (trace w)
          \<and> before (\<lambda>e. e = SetNormReward False) is_evaluation (trace w)
          \<and> (\<forall>e \<in> set (trace w). is_attribute_set e \<longrightarrow>
                e = SetTraining False \<or> e = SetNormReward False)
          \<and> (\<forall>wrapper d. EvaluateAgent wrapper d \<in> set (trace w) \<longrightarrow>
                wrapper = Some (vn\<lparr>training := False, norm_reward := False\<rparr>))
          \<and> (r = None \<longrightarrow>
                (\<exists>e \<in> set (trace w). is_stats_save e)
              \<and> vec_norm w = Some (vn\<lparr>training := False, norm_reward := False\<rparr>)))
       \<and> (vec_norm w0 = None \<longrightarrow>
            (\<forall>e \<in> set (trace w). \<not> is_stats_save e \<and> \<not> is_attribute_set e)
          \<and> vec_norm w = None)
       \<and> (\<forall>vn dir w1 w2. vec_norm w1 = Some vn \<and> save_normalization lib dir w1 = (None, w2) \<longrightarrow>
            map_of (files w2) (path_join dir ''vec_normalize.pkl'') = Some (NormalizationStats vn)
          \<and> vec_norm w2 = Some (vn\<lparr>training := False, norm_reward := False\<rparr>))
       \<and> (\<forall>dir w1. vec_norm w1 = None \<longrightarrow> save_normalization lib dir w1 = (None, w1))"
proof (intro conjI allI impI)
  fix dir and w1 :: "('a, 'b) world"
  assume "vec_norm w1 = None"
  then show "save_normalization lib dir w1 = (None, w1)"
    by (rule save_normalization_absent)
next
  fix vn dir and w1 w2 :: "('a, 'b) world"
  assume a: "vec_norm w1 = Some vn \<and> save_normalization lib dir w1 = (None, w2)"
  from a show "map_of (files w2) (path_join dir ''vec_normalize.pkl'')
      = Some (NormalizationStats vn)"
    using save_normalization_present(1) by blast
  from a show "vec_norm w2 = Some (vn\<lparr>training := False, norm_reward := False\<rparr>)"
    using save_normalization_present(2) by blast
next
  assume none: "vec_norm w0 = None"
  show "\<forall>e \<in> set (trace w). \<not> is_stats_save e \<and> \<not> is_attribute_set e"
  proof (cases "unpack_repo_id repo_id")
    case None
    with run have "w = w0" by (auto simp: package_to_hub_no_repo)
    with fresh show ?thesis by simp
  next
    case (Some pair)
    obtain organization repo_name where "pair = (organization, repo_name)" by (cases pair)
    with Some have unpack: "unpack_repo_id repo_id = Some (organization, repo_name)" by simp
    from unpack run obtain removed es where tr: "trace w = trace w0 @ es"
      and pre: "prefix es (pipeline_events repo_id (path_join local_repo_path repo_name)
        model_name log_path env_id commit_message is_deterministic generate_video (vec_norm w0)
        (eval_result lib) removed)"
      by (rule package_to_hub_trace)
    from pre have "set es \<subseteq> set (pipeline_events repo_id (path_join local_repo_path repo_name)
        model_name log_path env_id commit_message is_deterministic generate_video None
        (eval_result lib) removed)"
      unfolding none by (rule set_mono_prefix)
    with pipeline_events_absent have "\<forall>e \<in> set es. \<not> is_stats_save e \<and> \<not> is_attribute_set e"
      by blast
    with tr fresh show ?thesis by simp
  qed
  show "vec_norm w = None"
  proof (cases "unpack_repo_id repo_id")
    case None
    with run have "w = w0" by (auto simp: package_to_hub_no_repo)
    with none show ?thesis by simp
  next
    case (Some pair)
    obtain organization repo_name where "pair = (organization, repo_name)" by (cases pair)
    with Some have unpack: "unpack_repo_id repo_id = Some (organization, repo_name)" by simp
    from unpack run obtain removed es where "vec_norm w0 = None \<longrightarrow> vec_norm w = None"
      by (rule package_to_hub_trace)
    with none show ?thesis by simp
  qed
next
  fix vn
  assume vn: "vec_norm w0 = Some vn"
  have shape: "\<exists>removed. prefix (trace w)
        (pipeline_events repo_id dir model_name log_path env_id commit_message
           is_deterministic generate_video (Some vn) (eval_result lib) removed)
      \<and> (r = None \<longrightarrow> trace w = pipeline_events repo_id dir model_name log_path env_id
            commit_message is_deterministic generate_video (Some vn) (eval_result lib) removed
          \<and> vec_norm w = test_mode (Some vn))"
    if "unpack_repo_id repo_id = Some (organization, repo_name)"
      and "dir = path_join local_repo_path repo_name" for organization repo_name dir
  proof -
    from that(1) run obtain removed es where tr: "trace w = trace w0 @ es"
      and pre: "prefix es (pipeline_events repo_id (path_join local_repo_path repo_name)
        model_name log_path env_id commit_message is_deterministic generate_video (vec_norm w0)
        (eval_result lib) removed)"
      and ok: "r = None \<longrightarrow>
         es = pipeline_events repo_id (path_join local_repo_path repo_name) model_name
                log_path env_id commit_message is_deterministic generate_video (vec_norm w0)
                (eval_result lib) removed
         \<and> vec_norm w = test_mode (vec_norm w0)"
      by (rule package_to_hub_trace)
    from tr fresh have "trace w = es" by simp
    with pre ok show ?thesis unfolding vn that(2)
      by (intro exI [of _ removed]) simp
  qed
  have trivial: "trace w = [] \<and> r \<noteq> None" if "unpack_repo_id repo_id = None"
    using that run fresh by (auto simp: package_to_hub_no_repo)
  show "before is_stats_save is_attribute_set (trace w)"
  proof (cases "unpack_repo_id repo_id")
    case None
    with trivial show ?thesis by simp
  next
    case (Some pair)
    then obtain removed where "prefix (trace w)
        (pipeline_events repo_id (path_join local_repo_path (snd pair)) model_name log_path
           env_id commit_message is_deterministic generate_video (Some vn) (eval_result lib)
           removed)"
      using shape [of "fst pair" "snd pair"] by auto
    then show ?thesis using pipeline_events_present(1) by (rule before_prefix)
  qed
  show "before (\<lambda>e. e = SetTraining False) is_evaluation (trace w)"
  proof (cases "unpack_repo_id repo_id")
    case None
    with trivial show ?thesis by simp
  next
    case (Some pair)
    then obtain removed where "prefix (trace w)
        (pipeline_events repo_id (path_join local_repo_path (snd pair)) model_name log_path
           env_id commit_message is_deterministic generate_video (Some vn) (eval_result lib)
           removed)"
      using shape [of "fst pair" "snd pair"] by auto
    then show ?thesis using pipeline_events_present(2) by (rule before_prefix)
  qed
  show "before (\<lambda>e. e = SetNormReward False) is_evaluation (trace w)"
  proof (cases "unpack_repo_id repo_id")
    case None
    with trivial show ?thesis by simp
  next
    case (Some pair)
    then obtain removed where "prefix (trace w)
        (pipeline_events repo_id (path_join local_repo_path (snd pair)) model_name log_path
           env_id commit_message is_deterministic generate_video (Some vn) (eval_result lib)
           removed)"
      using shape [of "fst pair" "snd pair"] by auto
    then show ?thesis using pipeline_events_present(3) by (rule before_prefix)
  qed
  show "\<forall>e \<in> set (trace w). is_attribute_set e \<longrightarrow>
          e = SetTraining False \<or> e = SetNormReward False"
  proof (cases "unpack_repo_id repo_id")
    case None
    with trivial show ?thesis by simp
  next
    case (Some pair)
    then obtain removed where "prefix (trace w)
        (pipeline_events repo_id (path_join local_repo_path (snd pair)) model_name log_path
           env_id commit_message is_deterministic generate_video (Some vn) (eval_result lib)
           removed)"
      using shape [of "fst pair" "snd pair"] by auto
    then have "set (trace w) \<subseteq> set
        (pipeline_events repo_id (path_join local_repo_path (snd pair)) model_name log_path
           env_id commit_message is_deterministic generate_video (Some vn) (eval_result lib)
           removed)"
      by (rule set_mono_prefix)
    then show ?thesis using pipeline_events_present(4) by blast
  qed
  have seen: "\<forall>wrapper d. EvaluateAgent wrapper d \<in> set (trace w) \<longrightarrow>
          wrapper = Some (vn\<lparr>training := False, norm_reward := False\<rparr>)"
  proof (cases "unpack_repo_id repo_id")
    case None
    with trivial show ?thesis by simp
  next
    case (Some pair)
    then obtain removed where "prefix (trace w)
        (pipeline_events repo_id (path_join local_repo_path (snd pair)) model_name log_path
           env_id commit_message is_deterministic generate_video (Some vn) (eval_result lib)
           removed)"
      using shape [of "fst pair" "snd pair"] by auto
    then have "set (trace w) \<subseteq> set
        (pipeline_events repo_id (path_join local_repo_path (snd pair)) model_name log_path
           env_id commit_message is_deterministic generate_video (Some vn) (eval_result lib)
           removed)"
      by (rule set_mono_prefix)
    then show ?thesis using pipeline_events_present(5) by blast
  qed
  show "wrapper = Some (vn\<lparr>training := False, norm_reward := False\<rparr>)"
    if "EvaluateAgent wrapper d \<in> set (trace w)" for wrapper d
    using seen that by blast
  have complete: "(\<exists>e \<in> set (trace w). is_stats_save e)
      \<and> vec_norm w = Some (vn\<lparr>training := False, norm_reward := False\<rparr>)" if ok: "r = None"
  proof -
    from ok trivial obtain pair where Some: "unpack_repo_id repo_id = Some pair"
      by (cases "unpack_repo_id repo_id") auto
    with ok obtain removed where full: "trace w =
        pipeline_events repo_id (path_join local_repo_path (snd pair)) model_name log_path
           env_id commit_message is_deterministic generate_video (Some vn) (eval_result lib)
           removed"
      and v: "vec_norm w = test_mode (Some vn)"
      using shape [of "fst pair" "snd pair"] by auto
    have "\<exists>e \<in> set (trace w). is_stats_save e"
      unfolding full by (rule pipeline_events_present(6))
    moreover have "vec_norm w = Some (vn\<lparr>training := False, norm_reward := False\<rparr>)"
      using v by (simp add: test_mode_def)
    ultimately show ?thesis by blast
  qed
  show "\<exists>e \<in> set (trace w). is_stats_save e" if "r = None"
    using complete that by blast
  show "vec_norm w = Some (vn\<lparr>training := False, norm_reward := False\<rparr>)" if "r = None"
    using complete that by blast
qed

theorem vec_normalize_handling_witness:
  "fst (example_run True example_wrapped_world) = None
   \<and> vec_norm example_wrapped_world = Some \<lparr>training = True, norm_reward = True\<rparr>
   \<and> before is_stats_save is_attribute_set (trace (snd (example_run True example_wrapped_world)))
   \<and> before (\<lambda>e. e = SetTraining False) is_evaluation
        (trace (snd (example_run True example_wrapped_world)))
   \<and> before (\<lambda>e. e = SetNormReward False) is_evaluation
        (trace (snd (example_run True example_wrapped_world)))
   \<and> (\<exists>e \<in> set (trace (snd (example_run True example_wrapped_world))). is_stats_save e)
   \<and> vec_norm (snd (example_run True example_wrapped_world))
        = Some \<lparr>training = False, norm_reward = False\<rparr>
   \<and> EvaluateAgent (Some \<lparr>training = False, norm_reward = False\<rparr>) True
        \<in> set (trace (snd (example_run True example_wrapped_world)))
   \<and> fst (example_run True example_world) = None
   \<and> vec_norm example_world = None
   \<and> vec_norm (snd (example_run True example_world)) = None
   \<and> VecNormalizeSave ''hub/ppo-CartPole-v1/vec_normalize.pkl''
        \<notin> set (trace (snd (example_run True example_world)))"
proof -
  let ?vn = "\<lparr>training = True, norm_reward = True\<rparr>"
  have ok: "fst (example_run True example_wrapped_world) = None" by code_simp
  have ok': "fst (example_run True example_world) = None" by code_simp
  have seen: "EvaluateAgent (Some \<lparr>training = False, norm_reward = False\<rparr>) True
        \<in> set (trace (snd (example_run True example_wrapped_world)))" by code_simp
  have fresh: "trace example_wrapped_world = []" "trace example_world = []"
    by (simp_all add: example_wrapped_world_def example_world_def)
  have vn: "vec_norm example_wrapped_world = Some ?vn" "vec_norm example_world = None"
    by (simp_all add: example_wrapped_world_def example_world_def)
  have run: "package_to_hub example_library example_pformat ''ppo-CartPole-v1'' ''ppo'' ''PPO''
       ''logs/ppo/CartPole-v1_1'' [(''n_steps'', ''32'')] [] ''CartPole-v1''
       ''acme/ppo-CartPole-v1'' ''Initial commit'' True ''hub'' True w
     = (fst (example_run True w), snd (example_run True w))" for w
    unfolding example_run_def by (rule prod.collapse [symmetric])
  from vec_normalize_handling [OF run fresh(1)] vn(1) ok
  have wrapped: "before is_stats_save is_attribute_set
        (trace (snd (example_run True example_wrapped_world)))
   \<and> before (\<lambda>e. e = SetTraining False) is_evaluation
        (trace (snd (example_run True example_wrapped_world)))
   \<and> before (\<lambda>e. e = SetNormReward False) is_evaluation
        (trace (snd (example_run True example_wrapped_world)))
   \<and> (\<exists>e \<in> set (trace (snd (example_run True example_wrapped_world))). is_stats_save e)
   \<and> vec_norm (snd (example_run True example_wrapped_world))
        = Some (?vn\<lparr>training := False, norm_reward := False\<rparr>)"
    by blast
  from vec_normalize_handling [OF run fresh(2)] vn(2)
  have plain: "(\<forall>e \<in> set (trace (snd (example_run True example_world))).
                  \<not> is_stats_save e \<and> \<not> is_attribute_set e)
      \<and> vec_norm (snd (example_run True example_world)) = None"
    by blast
  have "is_stats_save (VecNormalizeSave ''hub/ppo-CartPole-v1/vec_normalize.pkl'' :: int event)"
    by (simp add: is_stats_save_def)
  with plain have absent: "VecNormalizeSave ''hub/ppo-CartPole-v1/vec_normalize.pkl''
        \<notin> set (trace (snd (example_run True example_world)))"
    by blast
  have upd: "?vn\<lparr>training := False, norm_reward := False\<rparr>
      = \<lparr>training = False, norm_reward = False\<rparr>" by simp
  from wrapped plain absent ok ok' seen vn show ?thesis
    unfolding upd by blast
qed

subsection \<open>The cleanup after the replay\<close>

lemma map_of_listed: "p \<in> set (map fst fsys) \<Longrightarrow> map_of fsys p \<noteq> None"
  by (simp add: map_of_eq_None_iff)

lemma unlink_listed:
  "map_of (files w) p \<noteq> None \<Longrightarrow> fst (unlink p w) \<noteq> Some (FileNotFoundError q)"
  by (auto simp: unlink_def split: option.splits content.splits)

lemma cleanup_never_missing:
  "fst (cleanup_replay_files w) \<noteq> Some (FileNotFoundError q)"
proof -
  let ?first = "if is_file (files w) ''test.mp4'' then unlink ''test.mp4'' w else (None, w)"
  have first: "fst ?first \<noteq> Some (FileNotFoundError q)"
    by (auto simp: is_file_def unlink_def split: option.splits content.splits)
  obtain r1 w1 where r1: "?first = (r1, w1)" by (cases ?first)
  show ?thesis
  proof (cases r1)
    case (Some e)
    with r1 have "cleanup_replay_files w = (Some e, w1)"
      by (simp add: cleanup_replay_files_def Let_def)
    with first r1 Some show ?thesis by simp
  next
    case None
    let ?json = "glob_cwd ''.meta.json'' (files w1)"
    from None r1 have res: "cleanup_replay_files w =
        (if 0 < length ?json then unlink (?json ! 0) w1 else (None, w1))"
      by (simp add: cleanup_replay_files_def Let_def)
    show ?thesis
    proof (cases "0 < length ?json")
      case False
      with res show ?thesis by simp
    next
      case True
      then have "?json ! 0 \<in> set ?json" by simp
      then have "?json ! 0 \<in> set (map fst (files w1))" by (simp add: glob_cwd_def)
      then have "map_of (files w1) (?json ! 0) \<noteq> None" by (rule map_of_listed)
      then have "fst (unlink (?json ! 0) w1) \<noteq> Some (FileNotFoundError q)"
        by (rule unlink_listed)
      with res True show ?thesis by simp
    qed
  qed
qed

text \<open>
  Claim C6. The cleanup after video generation does not raise when \<open>test.mp4\<close> and the
  \<open>*.meta.json\<close> files do not exist: both deletions are guarded, so the step is then a
  no-op, and it raises a missing-file error in no world at all.
\<close>

theorem cleanup_guarded:
  "(\<not> is_file (files w) ''test.mp4'' \<and> glob_cwd ''.meta.json'' (files w) = []
      \<longrightarrow> cleanup_replay_files w = (None, w))
   \<and> (\<forall>q. fst (cleanup_replay_files w) \<noteq> Some (FileNotFoundError q))"
  using cleanup_never_missing [of w]
  by (simp add: cleanup_replay_files_def Let_def)

theorem cleanup_guarded_witness:
  "\<not> is_file (files example_world) ''test.mp4''
   \<and> glob_cwd ''.meta.json'' (files example_world) = []
   \<and> cleanup_replay_files example_world = (None, example_world)
   \<and> fst (cleanup_replay_files
        (example_world\<lparr>files := [(''test.mp4'', Opaque ''video''),
                                  (''run.meta.json'', Opaque ''meta'')]\<rparr>)) = None
   \<and> files (snd (cleanup_replay_files
        (example_world\<lparr>files := [(''test.mp4'', Opaque ''video''),
                                  (''run.meta.json'', Opaque ''meta'')]\<rparr>))) = []"
proof -
  have a: "\<not> is_file (files example_world) ''test.mp4''" by code_simp
  have b: "glob_cwd ''.meta.json'' (files example_world) = []" by code_simp
  have c: "fst (cleanup_replay_files
        (example_world\<lparr>files := [(''test.mp4'', Opaque ''video''),
                                  (''run.meta.json'', Opaque ''meta'')]\<rparr>)) = None" by code_simp
  have d: "files (snd (cleanup_replay_files
        (example_world\<lparr>files := [(''test.mp4'', Opaque ''video''),
                                  (''run.meta.json'', Opaque ''meta'')]\<rparr>))) = []" by code_simp
  from cleanup_guarded [of example_world] a b c d show ?thesis by blast
qed

subsection \<open>The model card and its metadata\<close>

text \<open>
  What \<open>save_model_card\<close> leaves in \<open>README.md\<close>, and that a run of \<open>package_to_hub\<close>
  which does not raise ends with that file in the local clone.
\<close>

lemma save_model_card_readme:
  assumes "save_model_card lib repo_dir text metadata w1 = (None, w2)"
  shows "map_of (files w2) (path_join repo_dir ''README.md'') = Some (Readme text (Some metadata))"
  using assms
  by (auto simp: save_model_card_def Let_def lib_call_def write_file_def embed_metadata_def
        update_conv' split: if_splits)

lemma push_keeps_files:
  "files (snd (lib_call lib (PushToHub commit_message) id w)) = files w"
  by (simp add: lib_call_def)

lemma run_steps_append_ok:
  assumes "run_steps (xs @ ys) w = (None, w'')"
  obtains w' where "run_steps xs w = (None, w')" and "run_steps ys w' = (None, w'')"
  using assms unfolding run_steps_append
  by (cases "run_steps xs w") (auto split: option.splits)

lemma run_two_ok:
  assumes "run_steps [s1, s2] w = (None, w'')"
  obtains w' where "s1 w = (None, w')" and "s2 w' = (None, w'')"
proof -
  obtain r1 w1 where s1: "s1 w = (r1, w1)" by (cases "s1 w")
  obtain r2 w2 where s2: "s2 w1 = (r2, w2)" by (cases "s2 w1")
  from assms s1 have "r1 = None" by (cases r1) simp_all
  with assms s1 s2 have "r2 = None" and "w2 = w''" by (cases r2; simp)+
  with s1 s2 \<open>r1 = None\<close> show ?thesis using that by blast
qed

lemma package_to_hub_readme:
  assumes unpack: "unpack_repo_id repo_id = Some (organization, repo_name)"
    and run: "package_to_hub lib pformat model_name algo_name algo_class_name log_path
           hyperparams env_kwargs env_id repo_id commit_message is_deterministic
           local_repo_path generate_video w0 = (None, w)"
  shows "map_of (files w) (path_join (path_join local_repo_path repo_name) ''README.md'') =
     Some (Readme
       (fst (generate_model_card pformat algo_name algo_class_name organization env_id
               (fst (eval_result lib)) (snd (eval_result lib)) hyperparams env_kwargs))
       (Some (snd (generate_model_card pformat algo_name algo_class_name organization env_id
               (fst (eval_result lib)) (snd (eval_result lib)) hyperparams env_kwargs))))"
proof -
  let ?dir = "path_join local_repo_path repo_name"
  let ?card = "generate_model_card pformat algo_name algo_class_name organization env_id
                 (fst (eval_result lib)) (snd (eval_result lib)) hyperparams env_kwargs"
  let ?first = "[clone_repo lib repo_id ?dir,
            save_model lib ?dir model_name,
            save_normalization lib ?dir,
            unzip_model lib ?dir model_name,
            copy_config lib log_path env_id ?dir env_kwargs,
            archive_metrics lib log_path ?dir,
            evaluation_step lib is_deterministic,
            generate_video_step lib generate_video is_deterministic,
            log_event (GenerateModelCard (fst (eval_result lib)) (snd (eval_result lib)))]"
  let ?save = "save_model_card lib ?dir (fst ?card) (snd ?card)"
  let ?push = "lib_call lib (PushToHub commit_message) id"
  have "run_steps (?first @ [?save, ?push]) w0 = (None, w)"
    using run unfolding package_to_hub_steps [OF unpack] by (simp only: append.simps)
  then obtain w3 where "run_steps [?save, ?push] w3 = (None, w)"
    by (rule run_steps_append_ok)
  then obtain w4 where saved: "?save w3 = (None, w4)" and pushed: "?push w4 = (None, w)"
    by (rule run_two_ok)
  from saved have "map_of (files w4) (path_join ?dir ''README.md'')
      = Some (Readme (fst ?card) (Some (snd ?card)))"
    by (rule save_model_card_readme)
  moreover have "files (snd (?push w4)) = files w4" by (rule push_keeps_files)
  ultimately show ?thesis unfolding pushed by simp
qed

lemma generate_model_card_rewards:
  "map_of (snd (generate_model_card pformat algo_name algo_class_name organization env_id
                  mean_reward std_reward hyperparams env_kwargs)) ''mean_reward''
     = Some (MetaReward mean_reward)
   \<and> map_of (snd (generate_model_card pformat algo_name algo_class_name organization env_id
                  mean_reward std_reward hyperparams env_kwargs)) ''std_reward''
     = Some (MetaReward std_reward)"
  by (simp add: generate_model_card_def generate_metadata_def Let_def)

text \<open>
  Claim C7. The metadata mapping returned by \<open>generate_model_card\<close> contains the mean
  and std reward it was given, unchanged, and in a run of \<open>package_to_hub\<close> that does
  not raise these are the rewards the evaluation returned: the metadata saved with the
  README holds them.
\<close>

theorem metadata_keeps_rewards:
  "map_of (snd (generate_model_card pformat algo_name algo_class_name organization env_id
                  mean_reward std_reward hyperparams env_kwargs)) ''mean_reward''
     = Some (MetaReward mean_reward)
   \<and> map_of (snd (generate_model_card pformat algo_name algo_class_name organization env_id
                  mean_reward std_reward hyperparams env_kwargs)) ''std_reward''
     = Some (MetaReward std_reward)
   \<and> (unpack_repo_id repo_id = Some (organization, repo_name)
      \<and> package_to_hub lib pformat model_name algo_name algo_class_name log_path
           hyperparams env_kwargs env_id repo_id commit_message is_deterministic
           local_repo_path generate_video w0 = (None, w)
      \<longrightarrow> (\<exists>text metadata.
             map_of (files w) (path_join (path_join local_repo_path repo_name) ''README.md'')
               = Some (Readme text (Some metadata))
           \<and> map_of metadata ''mean_reward'' = Some (MetaReward (fst (eval_result lib)))
           \<and> map_of metadata ''std_reward'' = Some (MetaReward (snd (eval_result lib)))))"
proof -
  have saved: "\<exists>text metadata.
             map_of (files w) (path_join (path_join local_repo_path repo_name) ''README.md'')
               = Some (Readme text (Some metadata))
           \<and> map_of metadata ''mean_reward'' = Some (MetaReward (fst (eval_result lib)))
           \<and> map_of metadata ''std_reward'' = Some (MetaReward (snd (eval_result lib)))"
    if "unpack_repo_id repo_id = Some (organization, repo_name)"
      and "package_to_hub lib pformat model_name algo_name algo_class_name log_path
           hyperparams env_kwargs env_id repo_id commit_message is_deterministic
           local_repo_path generate_video w0 = (None, w)"
  proof (intro exI conjI)
    show "map_of (files w) (path_join (path_join local_repo_path repo_name) ''README.md'')
        = Some (Readme (fst (generate_model_card pformat algo_name algo_class_name organization
                  env_id (fst (eval_result lib)) (snd (eval_result lib)) hyperparams env_kwargs))
             (Some (snd (generate_model_card pformat algo_name algo_class_name organization
                  env_id (fst (eval_result lib)) (snd (eval_result lib)) hyperparams env_kwargs))))"
      by (rule package_to_hub_readme [OF that])
    show "map_of (snd (generate_model_card pformat algo_name algo_class_name organization
                  env_id (fst (eval_result lib)) (snd (eval_result lib)) hyperparams env_kwargs))
            ''mean_reward'' = Some (MetaReward (fst (eval_result lib)))"
      by (rule generate_model_card_rewards [THEN conjunct1])
    show "map_of (snd (generate_model_card pformat algo_name algo_class_name organization
                  env_id (fst (eval_result lib)) (snd (eval_result lib)) hyperparams env_kwargs))
            ''std_reward'' = Some (MetaReward (snd (eval_result lib)))"
      by (rule generate_model_card_rewards [THEN conjunct2])
  qed
  show ?thesis
    apply (intro conjI impI)
      apply (rule generate_model_card_rewards [THEN conjunct1])
     apply (rule generate_model_card_rewards [THEN conjunct2])
    apply (erule conjE)
    apply (rule saved; assumption)
    done
qed

theorem metadata_keeps_rewards_witness:
  "unpack_repo_id ''acme/ppo-CartPole-v1'' = Some (''acme'', ''ppo-CartPole-v1'')
   \<and> fst (example_run True example_world) = None
   \<and> eval_result example_library = (500, 0)
   \<and> (\<exists>text metadata.
         map_of (files (snd (example_run True example_world))) ''hub/ppo-CartPole-v1/README.md''
           = Some (Readme text (Some metadata))
       \<and> map_of metadata ''mean_reward'' = Some (MetaReward 500)
       \<and> map_of metadata ''std_reward'' = Some (MetaReward 0))
   \<and> map_of (snd (generate_model_card example_pformat ''ppo'' ''PPO'' ''acme'' ''CartPole-v1''
                  (500 :: int) 0 [(''n_steps'', ''32'')] [])) ''mean_reward''
       = Some (MetaReward 500)
   \<and> map_of (snd (generate_model_card example_pformat ''ppo'' ''PPO'' ''acme'' ''CartPole-v1''
                  (500 :: int) 0 [(''n_steps'', ''32'')] [])) ''std_reward''
       = Some (MetaReward 0)"
proof -
  have unpack: "unpack_repo_id ''acme/ppo-CartPole-v1'' = Some (''acme'', ''ppo-CartPole-v1'')"
    by code_simp
  have ok: "fst (example_run True example_world) = None" by code_simp
  have rewards: "eval_result example_library = (500, 0)"
    by (simp add: example_library_def)
  have run: "package_to_hub example_library example_pformat ''ppo-CartPole-v1'' ''ppo'' ''PPO''
       ''logs/ppo/CartPole-v1_1'' [(''n_steps'', ''32'')] [] ''CartPole-v1''
       ''acme/ppo-CartPole-v1'' ''Initial commit'' True ''hub'' True example_world
     = (None, snd (example_run True example_world))"
    using ok unfolding example_run_def by (metis prod.collapse)
  have readme: "path_join (path_join ''hub'' ''ppo-CartPole-v1'') ''README.md''
      = ''hub/ppo-CartPole-v1/README.md''"
    by (simp add: path_join_def)
  note claim = metadata_keeps_rewards [of example_pformat "''ppo''" "''PPO''" "''acme''"
      "''CartPole-v1''" "500 :: int" 0 "[(''n_steps'', ''32'')]" "[]"
      "''acme/ppo-CartPole-v1''" "''ppo-CartPole-v1''" example_library "''ppo-CartPole-v1''"
      "''logs/ppo/CartPole-v1_1''" "''Initial commit''" True "''hub''" True example_world
      "snd (example_run True example_world)"]
  from claim unpack run
  have "\<exists>text metadata.
         map_of (files (snd (example_run True example_world)))
           (path_join (path_join ''hub'' ''ppo-CartPole-v1'') ''README.md'')
           = Some (Readme text (Some metadata))
       \<and> map_of metadata ''mean_reward'' = Some (MetaReward (fst (eval_result example_library)))
       \<and> map_of metadata ''std_reward'' = Some (MetaReward (snd (eval_result example_library)))"
    by blast
  then have saved: "\<exists>text metadata.
         map_of (files (snd (example_run True example_world))) ''hub/ppo-CartPole-v1/README.md''
           = Some (Readme text (Some metadata))
       \<and> map_of metadata ''mean_reward'' = Some (MetaReward 500)
       \<and> map_of metadata ''std_reward'' = Some (MetaReward 0)"
    unfolding readme rewards by simp
  from claim have "map_of (snd (generate_model_card example_pformat ''ppo'' ''PPO'' ''acme''
        ''CartPole-v1'' (500 :: int) 0 [(''n_steps'', ''32'')] [])) ''mean_reward''
       = Some (MetaReward 500)
   \<and> map_of (snd (generate_model_card example_pformat ''ppo'' ''PPO'' ''acme'' ''CartPole-v1''
                  (500 :: int) 0 [(''n_steps'', ''32'')] [])) ''std_reward''
       = Some (MetaReward 0)"
    by blast
  with unpack ok rewards saved show ?thesis by blast
qed




end
